theory Spec2Isabelle
  imports Complex_Main "HOL-Library.Word"
begin

section \<open>The bigraph solver driver (glasgow_bigraph_solver.cc)\<close>

text \<open>
  The driver is one function, \<open>main\<close>: it reads the parsed command line, fills a
  \<open>HomomorphismParams\<close> value, reads the two graphs, calls the solver and prints the
  result.  The model follows it block by block.  Everything \<open>main\<close> calls but does not
  define (the option parser, the file readers, the lackey, the symmetry finder, the solver,
  the clocks) is a field of the record \<open>world\<close>; the streams \<open>cout\<close> and \<open>cerr\<close> are
  lists of finished lines; an early \<open>return\<close> and a thrown exception are values.
\<close>

subsection \<open>Data\<close>

text \<open>\<open>unsigned long long\<close> and \<open>unsigned\<close>.  A value read with \<open>as<int>()\<close> is kept as
  the integer it denotes; its conversion to \<open>unsigned long long\<close> is \<open>word_of_int\<close>,
  which reduces modulo \<open>2 ^ 64\<close> as the C++ conversion does.\<close>

type_synonym ull = "64 word"
type_synonym unsigned = "32 word"

text \<open>The enumerations of homomorphism.hh.  The driver names \<open>Injectivity::Injective\<close> only;
  the other constructors stand for the remaining values of the enumeration.\<close>

datatype Injectivity = Injective | LocallyInjective | NonInjective

datatype ValueOrdering = Biased | Degree | AntiDegree | Random

text \<open>The four schedule classes of restarts.hh with their constructor arguments.  The
  driver never computes with a \<open>double\<close>, it only hands it on, so the carrier of
  \<open>double\<close> is the type parameter \<open>'d\<close>.  A \<open>milliseconds\<close> value is its count.\<close>

datatype 'd RestartsSchedule =
    LubyRestartsSchedule ull
  | GeometricRestartsSchedule 'd 'd
  | TimedRestartsSchedule int ull
  | NoRestartsSchedule

text \<open>The static members of the schedule classes that the driver reads; restarts.hh is not
  part of the driver, so their values are parameters.\<close>

record 'd schedule_defaults =
  Luby_default_multiplier :: ull
  Geometric_default_initial_value :: 'd
  Geometric_default_multiplier :: 'd
  Timed_default_duration :: int
  Timed_default_minimum_backtracks :: ull

text \<open>\<open>options_vars\<close> after \<open>po::store\<close> and \<open>po::notify\<close>.  An option without a value is
  a flag (\<open>count(name)\<close> is 1 or 0); an option with a value is present with that value or
  absent.  The four options of the group "Advanced input processing options" are declared
  but never read by \<open>main\<close>.\<close>

record 'd variables_map =
  opt_help :: bool
  opt_timeout :: "int option"
  opt_parallel :: bool
  opt_count_solutions :: bool
  opt_print_all_solutions :: bool
  opt_restarts :: "string option"
  opt_geometric_multiplier :: "'d option"
  opt_geometric_constant :: "'d option"
  opt_restart_interval :: "int option"
  opt_restart_minimum :: "int option"
  opt_luby_constant :: "int option"
  opt_value_ordering :: "string option"
  opt_pattern_symmetries :: bool
  opt_no_clique_detection :: bool
  opt_no_isolated_vertex_removal :: bool
  opt_no_supplementals :: bool
  opt_no_nds :: bool
  opt_threads :: "unsigned option"
  opt_triggered_restarts :: bool
  opt_delay_thread_creation :: bool
  opt_pattern_less_than :: "string list"
  opt_pattern_automorphism_group_size :: "string option"
  opt_send_to_lackey :: "string option"
  opt_receive_from_lackey :: "string option"
  opt_pattern_file :: "string option"
  opt_target_file :: "string option"

text \<open>The names under which \<open>main\<close> registers its options, in the order of the
  \<open>add_options\<close> calls.\<close>

definition option_names :: "string list" where
  "option_names =
    [''help'', ''timeout'', ''parallel'',
     ''count-solutions'', ''print-all-solutions'',
     ''restarts'', ''geometric-multiplier'', ''geometric-constant'', ''restart-interval'',
     ''restart-minimum'', ''luby-constant'', ''value-ordering'', ''pattern-symmetries'',
     ''no-clique-detection'', ''no-isolated-vertex-removal'', ''no-supplementals'', ''no-nds'',
     ''threads'', ''triggered-restarts'', ''delay-thread-creation'',
     ''pattern-less-than'', ''pattern-automorphism-group-size'',
     ''send-to-lackey'', ''receive-from-lackey'',
     ''pattern-file'', ''target-file'']"

text \<open>The fields of \<open>HomomorphismParams\<close> that \<open>main\<close> writes.  A \<open>unique_ptr\<close> or
  \<open>shared_ptr\<close> field is an option (\<open>None\<close> is the null pointer); \<open>lackey\<close> keeps the two
  pipe names the \<open>Lackey\<close> was built from, \<open>timeout\<close> the seconds the \<open>Timeout\<close> was built
  from; \<open>enumerate_callback\<close> records whether the printing callback is installed.\<close>

record 'd HomomorphismParams =
  injectivity :: Injectivity
  induced :: bool
  bigraph :: bool
  count_solutions :: bool
  minimal_unsat_pattern :: bool
  triggered_restarts :: bool
  n_threads :: unsigned
  delay_thread_creation :: bool
  restarts_schedule :: "'d RestartsSchedule option"
  value_ordering_heuristic :: ValueOrdering
  pattern_less_constraints :: "(string \<times> string) list"
  lackey :: "(string \<times> string) option"
  enumerate_callback :: bool
  timeout :: "int option"

text \<open>The calls \<open>main\<close> makes into the rest of the program, recorded in order so that
  "before the graphs are read" and "before the search starts" can be stated.  The call of
  the solver is recorded with the parameters it is given.\<close>

datatype 'd event =
    CallReadGraphs
  | CallLackey string string
  | CallTimeout int
  | CallFindSymmetries
  | CallSolve "'d HomomorphismParams"

record 'd io =
  cout :: "string list"
  cerr :: "string list"
  trace :: "'d event list"

text \<open>\<open>VertexToVertexMapping\<close> is a \<open>std::map<int, int>\<close>: its pairs in key order.\<close>

type_synonym VertexToVertexMapping = "(int \<times> int) list"

record HomomorphismResult =
  mapping :: VertexToVertexMapping
  solution_count :: nat
  nodes :: ull
  propagations :: ull
  extra_stats :: "string list"

text \<open>What one call of \<open>solve_homomorphism_problem\<close> leaves behind: its result, the
  mappings it passed to \<open>enumerate_callback\<close> (in order; used only when the callback is
  installed), and what \<open>params.timeout->aborted()\<close> answers afterwards.\<close>

record solved =
  result :: HomomorphismResult
  enumerated :: "VertexToVertexMapping list"
  timeout_aborted :: bool

text \<open>An exception in flight, with its \<open>what()\<close> text: the two kinds the handlers of
  \<open>main\<close> tell apart after parsing.\<close>

datatype exn = GraphFileError string | Exception string

text \<open>Everything outside \<open>main\<close>.  The two graphs are what the two files hold, so the
  functions that receive them (the \<open>Lackey\<close> constructor, the symmetry finder, the solver,
  \<open>vertex_name\<close>) appear here already applied to them.  \<open>read_graphs\<close> is the exception,
  if any, thrown while the pair of graphs is read; \<open>make_Lackey\<close> the exception, if any,
  thrown by the constructor; \<open>find_symmetries\<close> returns the constraints and the group size
  it writes through its reference arguments; the two times are the measured durations in
  milliseconds; \<open>help_text\<close> is what printing \<open>display_options\<close> produces.\<close>

record 'd world =
  argv0 :: string
  argv_rest :: "string list"
  help_text :: "string list"
  hostname :: "string option"
  started_at :: string
  GraphFileError_what :: "string \<Rightarrow> string \<Rightarrow> bool \<Rightarrow> string"
  pattern_infile_ok :: bool
  target_infile_ok :: bool
  read_graphs :: "exn option"
  make_Lackey :: "string \<Rightarrow> string \<Rightarrow> exn option"
  find_symmetries :: "(string \<times> string) list \<Rightarrow> exn + ((string \<times> string) list \<times> string)"
  pattern_symmetry_time :: int
  solve_homomorphism_problem :: "'d HomomorphismParams \<Rightarrow> exn + solved"
  overall_time :: int
  pattern_vertex_name :: "int \<Rightarrow> string"
  target_vertex_name :: "int \<Rightarrow> string"

text \<open>How \<open>main\<close> ends: by a \<open>return\<close> or by an exception that reaches a handler.\<close>

datatype ending = Returned int | Thrown exn

definition EXIT_SUCCESS :: int where "EXIT_SUCCESS = 0"
definition EXIT_FAILURE :: int where "EXIT_FAILURE = 1"

subsection \<open>Output\<close>

definition put :: "string \<Rightarrow> 'd io \<Rightarrow> 'd io" where
  "put l s = s\<lparr>cout := cout s @ [l]\<rparr>"

definition put_err :: "string \<Rightarrow> 'd io \<Rightarrow> 'd io" where
  "put_err l s = s\<lparr>cerr := cerr s @ [l]\<rparr>"

definition puts :: "string list \<Rightarrow> 'd io \<Rightarrow> 'd io" where
  "puts ls s = s\<lparr>cout := cout s @ ls\<rparr>"

definition call :: "'d event \<Rightarrow> 'd io \<Rightarrow> 'd io" where
  "call e s = s\<lparr>trace := trace s @ [e]\<rparr>"

definition io0 :: "'d io" where
  "io0 = \<lparr>cout = [], cerr = [], trace = []\<rparr>"

text \<open>\<open>operator<<\<close> on an unsigned and on a signed integer: decimal digits.\<close>

fun show_nat :: "nat \<Rightarrow> string" where
  "show_nat n =
     (if n < 10 then [''0123456789'' ! n]
      else show_nat (n div 10) @ [''0123456789'' ! (n mod 10)])"

declare show_nat.simps [simp del]

definition show_int :: "int \<Rightarrow> string" where
  "show_int i = (if i < 0 then CHR ''-'' # show_nat (nat (- i)) else show_nat (nat i))"

text \<open>A name between single quotes, as the diagnostics print it.\<close>

definition quoted :: "string \<Rightarrow> string" where
  "quoted name = [CHR 0x27] @ name @ [CHR 0x27]"

definition usage :: "'d world \<Rightarrow> string" where
  "usage w = ''Usage: '' @ argv0 w @ '' [options] pattern target''"

definition show_mapping :: "'d world \<Rightarrow> VertexToVertexMapping \<Rightarrow> string" where
  "show_mapping w m =
     ''mapping = '' @
     concat (map (\<lambda>(p, t). ''('' @ pattern_vertex_name w p @ '' -> ''
                              @ target_vertex_name w t @ '') '') m)"

subsection \<open>The option blocks of main\<close>

text \<open>Lines 159 to 200: the restart schedule.  \<open>Inl\<close> carries the policy name of the
  \<open>else\<close> branch that prints "Unknown restarts policy" and returns.\<close>

definition choose_restarts ::
  "'d schedule_defaults \<Rightarrow> 'd variables_map \<Rightarrow> bool \<Rightarrow> string + 'd RestartsSchedule" where
  "choose_restarts d vm counting =
     (case opt_restarts vm of
        Some restarts_policy \<Rightarrow>
          if restarts_policy = ''luby'' then
            Inr (LubyRestartsSchedule
                  (case opt_luby_constant vm of
                     Some c \<Rightarrow> word_of_int c
                   | None \<Rightarrow> Luby_default_multiplier d))
          else if restarts_policy = ''geometric'' then
            Inr (GeometricRestartsSchedule
                  (case opt_geometric_constant vm of
                     Some c \<Rightarrow> c
                   | None \<Rightarrow> Geometric_default_initial_value d)
                  (case opt_geometric_multiplier vm of
                     Some m \<Rightarrow> m
                   | None \<Rightarrow> Geometric_default_multiplier d))
          else if restarts_policy = ''timed'' then
            Inr (TimedRestartsSchedule
                  (case opt_restart_interval vm of
                     Some i \<Rightarrow> i
                   | None \<Rightarrow> Timed_default_duration d)
                  (case opt_restart_minimum vm of
                     Some m \<Rightarrow> word_of_int m
                   | None \<Rightarrow> Timed_default_minimum_backtracks d))
          else if restarts_policy = ''none'' then
            Inr NoRestartsSchedule
          else Inl restarts_policy
      | None \<Rightarrow>
          if counting then Inr NoRestartsSchedule
          else if opt_parallel vm then
            Inr (TimedRestartsSchedule (Timed_default_duration d)
                                       (Timed_default_minimum_backtracks d))
          else Inr (LubyRestartsSchedule (Luby_default_multiplier d)))"

text \<open>Lines 202 to 216: the value-ordering heuristic; without the option the field keeps
  the value it had.\<close>

definition choose_value_ordering ::
  "'d variables_map \<Rightarrow> ValueOrdering \<Rightarrow> string + ValueOrdering" where
  "choose_value_ordering vm current =
     (case opt_value_ordering vm of
        Some heuristic \<Rightarrow>
          if heuristic = ''biased'' then Inr Biased
          else if heuristic = ''degree'' then Inr Degree
          else if heuristic = ''antidegree'' then Inr AntiDegree
          else if heuristic = ''random'' then Inr Random
          else Inl heuristic
      | None \<Rightarrow> Inr current)"

text \<open>Lines 225 to 233: the loop over the less-than constraints.  \<open>s.find('<')\<close> is the
  position of the first \<open><\<close>; \<open>a\<close> is the text before it and \<open>b\<close> the text after it.  The
  loop stops at the first string without a \<open><\<close> (\<open>Inl\<close> of that string).\<close>

fun less_thans ::
  "string list \<Rightarrow> (string \<times> string) list \<Rightarrow> string + (string \<times> string) list" where
  "less_thans [] cs = Inr cs"
| "less_thans (s # ss) cs =
     (if CHR ''<'' \<notin> set s then Inl s
      else let a = takeWhile (\<lambda>c. c \<noteq> CHR ''<'') s;
               b = tl (dropWhile (\<lambda>c. c \<noteq> CHR ''<'') s)
           in less_thans ss (cs @ [(a, b)]))"

text \<open>Line 235: \<open>count(...) ^ count(...)\<close> on two counts that are 0 or 1 is non-zero exactly
  when they differ.\<close>

definition one_lackey_pipe_only :: "'d variables_map \<Rightarrow> bool" where
  "one_lackey_pipe_only vm =
     ((opt_send_to_lackey vm \<noteq> None) \<noteq> (opt_receive_from_lackey vm \<noteq> None))"

text \<open>What the configuration part of \<open>main\<close> (lines 140 to 238) hands to the rest: the
  parameters and the two locals about the automorphism group.\<close>

record 'd configured =
  params :: "'d HomomorphismParams"
  pattern_automorphism_group_size :: string
  was_given_automorphism_group :: bool

text \<open>Lines 140 to 157: the fields set unconditionally and the thread options.  \<open>params0\<close> is
  the default-constructed \<open>HomomorphismParams\<close>.\<close>

definition basic_params ::
  "'d HomomorphismParams \<Rightarrow> 'd variables_map \<Rightarrow> 'd HomomorphismParams" where
  "basic_params params0 vm =
     (let p1 = params0\<lparr>
            injectivity := Injective,
            induced := True,
            bigraph := True,
            count_solutions := (opt_count_solutions vm \<or> opt_print_all_solutions vm),
            minimal_unsat_pattern := False,
            triggered_restarts := (opt_triggered_restarts vm \<or> opt_parallel vm)\<rparr>;
          p2 = (case opt_threads vm of
                  Some n \<Rightarrow> p1\<lparr>n_threads := n\<rparr>
                | None \<Rightarrow> if opt_parallel vm then p1\<lparr>n_threads := 0\<rparr> else p1)
      in if opt_delay_thread_creation vm \<or> opt_parallel vm
         then p2\<lparr>delay_thread_creation := True\<rparr> else p2)"

text \<open>Lines 126 to 238.  \<open>Inl\<close> is an early \<open>return\<close> with its exit status.\<close>

definition configure ::
  "'d schedule_defaults \<Rightarrow> 'd HomomorphismParams \<Rightarrow> 'd world \<Rightarrow> 'd variables_map \<Rightarrow> 'd io
     \<Rightarrow> (int \<times> 'd io) + ('d configured \<times> 'd io)" where
  "configure d params0 w vm s =
     (if opt_help vm then
        Inl (EXIT_SUCCESS, puts (help_text w) (put [] (put (usage w) s)))
      else if opt_pattern_file vm = None \<or> opt_target_file vm = None then
        Inl (EXIT_FAILURE, put (usage w) s)
      else
        (let p = basic_params params0 vm in
         (case choose_restarts d vm (count_solutions p) of
            Inl restarts_policy \<Rightarrow>
              Inl (EXIT_FAILURE,
                   put_err (''Unknown restarts policy '' @ quoted restarts_policy) s)
          | Inr schedule \<Rightarrow>
             (let p = p\<lparr>restarts_schedule := Some schedule\<rparr> in
              (case choose_value_ordering vm (value_ordering_heuristic p) of
                 Inl heuristic \<Rightarrow>
                   Inl (EXIT_FAILURE,
                        put_err (''Unknown value-ordering heuristic '' @ quoted heuristic) s)
               | Inr chosen \<Rightarrow>
                  (let p = p\<lparr>value_ordering_heuristic := chosen\<rparr>;
                       group_size = (case opt_pattern_automorphism_group_size vm of
                                       Some g \<Rightarrow> g | None \<Rightarrow> ''1'');
                       given = (opt_pattern_automorphism_group_size vm \<noteq> None) in
                   (case less_thans (opt_pattern_less_than vm) (pattern_less_constraints p) of
                      Inl bad \<Rightarrow>
                        Inl (EXIT_FAILURE,
                             put_err (''Invalid pattern less-than constraint '' @ quoted bad) s)
                    | Inr constraints \<Rightarrow>
                       (let p = p\<lparr>pattern_less_constraints := constraints\<rparr> in
                        if one_lackey_pipe_only vm then
                          Inl (EXIT_FAILURE,
                               put_err ''Must specify both of --send-to-lackey and --receive-from-lackey'' s)
                        else
                          Inr (\<lparr>params = p, pattern_automorphism_group_size = group_size,
                                was_given_automorphism_group = given\<rparr>, s)))))))))"

text \<open>Lines 240 to 249: host name, command line and start time.\<close>

definition announce :: "'d world \<Rightarrow> 'd io \<Rightarrow> 'd io" where
  "announce w s =
     (let s1 = (case hostname w of Some h \<Rightarrow> put (''hostname = '' @ h) s | None \<Rightarrow> s);
          s2 = put (''commandline ='' @ concat (map (\<lambda>a. '' '' @ a) (argv0 w # argv_rest w))) s1
      in put (''started_at = '' @ started_at w) s2)"

text \<open>Lines 309 to 336: the report.  \<open>params.timeout->aborted()\<close> is asked first.\<close>

definition status_line :: "'d HomomorphismParams \<Rightarrow> solved \<Rightarrow> string" where
  "status_line p r =
     ''status = '' @
     (if timeout_aborted r then ''aborted''
      else if mapping (result r) \<noteq> [] \<or> (count_solutions p \<and> solution_count (result r) > 0)
      then ''true''
      else ''false'')"

definition report ::
  "'d world \<Rightarrow> 'd variables_map \<Rightarrow> 'd HomomorphismParams \<Rightarrow> solved \<Rightarrow> 'd io \<Rightarrow> 'd io" where
  "report w vm p r s =
     (let s1 = put (status_line p r) s;
          s2 = (if count_solutions p
                then put (''solution_count = '' @ show_nat (solution_count (result r))) s1
                else s1);
          s3 = put (''nodes = '' @ show_nat (unat (nodes (result r)))) s2;
          s4 = put (''propagations = '' @ show_nat (unat (propagations (result r)))) s3;
          s5 = (if mapping (result r) \<noteq> [] \<and> \<not> opt_print_all_solutions vm
                then put (show_mapping w (mapping (result r))) s4
                else s4);
          s6 = put (''runtime = '' @ show_int (overall_time w)) s5
      in puts (extra_stats (result r)) s6)"

text \<open>Lines 251 to 269: opening the two files and reading the graphs.  \<open>Inl\<close> is an
  exception, leaving with the output written so far.\<close>

definition read_in ::
  "'d world \<Rightarrow> 'd variables_map \<Rightarrow> 'd io \<Rightarrow> (exn \<times> 'd io) + 'd io" where
  "read_in w vm s =
     (case (opt_pattern_file vm, opt_target_file vm) of
        (Some pattern_filename, Some target_filename) \<Rightarrow>
          if \<not> pattern_infile_ok w then
            Inl (GraphFileError
                   (GraphFileError_what w pattern_filename ''unable to open pattern file'' False), s)
          else if \<not> target_infile_ok w then
            Inl (GraphFileError
                   (GraphFileError_what w target_filename ''unable to open target file'' False), s)
          else
            (case read_graphs w of
               Some e \<Rightarrow> Inl (e, call CallReadGraphs s)
             | None \<Rightarrow>
                 Inr (put (''target_file = '' @ target_filename)
                       (put (''pattern_file = '' @ pattern_filename) (call CallReadGraphs s))))
      | _ \<Rightarrow> Inl (Exception ''boost::bad_any_cast'', s))"

text \<open>Lines 271 to 277: the lackey is built only when both pipe names are given.\<close>

definition attach_lackey ::
  "'d world \<Rightarrow> 'd variables_map \<Rightarrow> 'd HomomorphismParams \<Rightarrow> 'd io
     \<Rightarrow> (exn \<times> 'd io) + ('d HomomorphismParams \<times> 'd io)" where
  "attach_lackey w vm p s =
     (case (opt_send_to_lackey vm, opt_receive_from_lackey vm) of
        (Some send, Some receive) \<Rightarrow>
          (case make_Lackey w send receive of
             Some e \<Rightarrow> Inl (e, call (CallLackey send receive) s)
           | None \<Rightarrow> Inr (p\<lparr>lackey := Some (send, receive)\<rparr>, call (CallLackey send receive) s))
      | _ \<Rightarrow> Inr (p, s))"

text \<open>Lines 279 to 289: the printing callback and the timeout.\<close>

definition callback_and_timeout ::
  "'d variables_map \<Rightarrow> 'd HomomorphismParams \<Rightarrow> 'd io \<Rightarrow> 'd HomomorphismParams \<times> 'd io" where
  "callback_and_timeout vm p s =
     (let p1 = (if opt_print_all_solutions vm then p\<lparr>enumerate_callback := True\<rparr> else p);
          seconds = (case opt_timeout vm of Some t \<Rightarrow> t | None \<Rightarrow> 0)
      in (p1\<lparr>timeout := Some seconds\<rparr>, call (CallTimeout seconds) s))"

text \<open>Lines 294 to 302: the symmetry finder, which rewrites the constraints and the group
  size it is given by reference, and the line about the group size.\<close>

definition symmetries ::
  "'d world \<Rightarrow> 'd variables_map \<Rightarrow> 'd configured \<Rightarrow> 'd HomomorphismParams \<Rightarrow> 'd io
     \<Rightarrow> (exn \<times> 'd io) + ('d HomomorphismParams \<times> 'd io)" where
  "symmetries w vm c p s =
     (if opt_pattern_symmetries vm then
        (case find_symmetries w (pattern_less_constraints p) of
           Inl e \<Rightarrow> Inl (e, call CallFindSymmetries s)
         | Inr (constraints, group_size) \<Rightarrow>
             Inr (p\<lparr>pattern_less_constraints := constraints\<rparr>,
                  put (''pattern_automorphism_group_size = '' @ group_size)
                    (put (''pattern_symmetry_time = '' @ show_int (pattern_symmetry_time w))
                      (call CallFindSymmetries s))))
      else
        Inr (p, if was_given_automorphism_group c
                then put (''pattern_automorphism_group_size = ''
                          @ pattern_automorphism_group_size c) s
                else s))"

text \<open>Lines 251 to 302 together: everything between the configuration and the call of the
  solver.\<close>

definition prepare ::
  "'d world \<Rightarrow> 'd variables_map \<Rightarrow> 'd configured \<Rightarrow> 'd io
     \<Rightarrow> (exn \<times> 'd io) + ('d HomomorphismParams \<times> 'd io)" where
  "prepare w vm c s =
     (case read_in w vm s of
        Inl x \<Rightarrow> Inl x
      | Inr s1 \<Rightarrow>
         (case attach_lackey w vm (params c) s1 of
            Inl x \<Rightarrow> Inl x
          | Inr (p1, s2) \<Rightarrow>
             (case callback_and_timeout vm p1 s2 of
                (p2, s3) \<Rightarrow> symmetries w vm c p2 s3)))"

text \<open>Lines 304 to 336: the call of the solver and the report.  The callback installed for
  \<open>--print-all-solutions\<close> prints one line for each mapping the solver hands it, while
  the solver runs.\<close>

definition solve_and_report ::
  "'d world \<Rightarrow> 'd variables_map \<Rightarrow> 'd HomomorphismParams \<Rightarrow> 'd io \<Rightarrow> ending \<times> 'd io" where
  "solve_and_report w vm p s =
     (case solve_homomorphism_problem w p of
        Inl e \<Rightarrow> (Thrown e, call (CallSolve p) s)
      | Inr r \<Rightarrow>
          (Returned EXIT_SUCCESS,
           report w vm p r
             ((if enumerate_callback p then puts (map (show_mapping w) (enumerated r)) else id)
               (call (CallSolve p) s))))"

definition run ::
  "'d world \<Rightarrow> 'd variables_map \<Rightarrow> 'd configured \<Rightarrow> 'd io \<Rightarrow> ending \<times> 'd io" where
  "run w vm c s =
     (case prepare w vm c s of
        Inl (e, s1) \<Rightarrow> (Thrown e, s1)
      | Inr (p, s1) \<Rightarrow> solve_and_report w vm p s1)"

text \<open>The three handlers at the end of \<open>main\<close>.  After parsing, only the first and the last
  can be reached; both print the same line.\<close>

definition handle :: "ending \<times> 'd io \<Rightarrow> int \<times> 'd io" where
  "handle r =
     (case r of
        (Returned status, s) \<Rightarrow> (status, s)
      | (Thrown (GraphFileError what), s) \<Rightarrow> (EXIT_FAILURE, put_err (''Error: '' @ what) s)
      | (Thrown (Exception what), s) \<Rightarrow> (EXIT_FAILURE, put_err (''Error: '' @ what) s))"

text \<open>\<open>main\<close>.  Its input is what the option parser produced: \<open>Inl\<close> the \<open>what()\<close> of a
  \<open>po::error\<close> thrown by \<open>po::store\<close> or \<open>po::notify\<close>, \<open>Inr\<close> the variables map.  The
  result is the exit status with everything written and called.\<close>

definition main ::
  "'d schedule_defaults \<Rightarrow> 'd HomomorphismParams \<Rightarrow> 'd world
     \<Rightarrow> string + 'd variables_map \<Rightarrow> int \<times> 'd io" where
  "main d params0 w parsed =
     (case parsed of
        Inl what \<Rightarrow>
          (EXIT_FAILURE,
           put_err (''Try '' @ argv0 w @ '' --help'') (put_err (''Error: '' @ what) io0))
      | Inr vm \<Rightarrow>
         (case configure d params0 w vm io0 of
            Inl (status, s) \<Rightarrow> (status, s)
          | Inr (c, s) \<Rightarrow> handle (run w vm c (announce w s))))"

subsection \<open>Reading a run\<close>

text \<open>The parameters of the solver calls in a trace, in order.\<close>

fun solver_calls :: "'d event list \<Rightarrow> 'd HomomorphismParams list" where
  "solver_calls [] = []"
| "solver_calls (CallSolve p # es) = p # solver_calls es"
| "solver_calls (_ # es) = solver_calls es"

text \<open>The names the two chains of string comparisons (lines 161 to 185 and 204 to 210)
  recognise, and what it means for an invocation to name another one.\<close>

definition restart_policy_names :: "string list" where
  "restart_policy_names = [''luby'', ''geometric'', ''timed'', ''none'']"

definition heuristic_names :: "string list" where
  "heuristic_names = [''biased'', ''degree'', ''antidegree'', ''random'']"

definition unknown_restarts :: "'d variables_map \<Rightarrow> bool" where
  "unknown_restarts vm =
     (case opt_restarts vm of Some r \<Rightarrow> r \<notin> set restart_policy_names | None \<Rightarrow> False)"

definition unknown_value_ordering :: "'d variables_map \<Rightarrow> bool" where
  "unknown_value_ordering vm =
     (case opt_value_ordering vm of Some h \<Rightarrow> h \<notin> set heuristic_names | None \<Rightarrow> False)"

subsection \<open>Example inputs\<close>

text \<open>Concrete inputs on which the properties below are exercised: some values for the
  static members, a default-constructed parameter block in which nothing is switched on,
  the command line that names the two files and nothing else, and a world in which
  everything succeeds and the solver answers with a given outcome.\<close>

definition example_defaults :: "real schedule_defaults" where
  "example_defaults =
     \<lparr>Luby_default_multiplier = 666,
      Geometric_default_initial_value = 5400,
      Geometric_default_multiplier = 1,
      Timed_default_duration = 100,
      Timed_default_minimum_backtracks = 100\<rparr>"

definition example_params0 :: "real HomomorphismParams" where
  "example_params0 =
     \<lparr>injectivity = NonInjective, induced = False, bigraph = False,
      count_solutions = False, minimal_unsat_pattern = False, triggered_restarts = False,
      n_threads = 1, delay_thread_creation = False, restarts_schedule = None,
      value_ordering_heuristic = Biased, pattern_less_constraints = [], lackey = None,
      enumerate_callback = False, timeout = None\<rparr>"

definition files_only :: "real variables_map" where
  "files_only =
     \<lparr>opt_help = False, opt_timeout = None, opt_parallel = False,
      opt_count_solutions = False, opt_print_all_solutions = False,
      opt_restarts = None, opt_geometric_multiplier = None, opt_geometric_constant = None,
      opt_restart_interval = None, opt_restart_minimum = None, opt_luby_constant = None,
      opt_value_ordering = None, opt_pattern_symmetries = False,
      opt_no_clique_detection = False, opt_no_isolated_vertex_removal = False,
      opt_no_supplementals = False, opt_no_nds = False,
      opt_threads = None, opt_triggered_restarts = False, opt_delay_thread_creation = False,
      opt_pattern_less_than = [], opt_pattern_automorphism_group_size = None,
      opt_send_to_lackey = None, opt_receive_from_lackey = None,
      opt_pattern_file = Some ''p.big'', opt_target_file = Some ''t.big''\<rparr>"

definition example_world :: "solved \<Rightarrow> real world" where
  "example_world outcome =
     \<lparr>argv0 = ''glasgow_bigraph_solver'', argv_rest = [''p.big'', ''t.big''],
      help_text = [], hostname = None, started_at = ''2020-01-01 00:00:00'',
      GraphFileError_what = (\<lambda>filename message x. message),
      pattern_infile_ok = True, target_infile_ok = True, read_graphs = None,
      make_Lackey = (\<lambda>send receive. None),
      find_symmetries = (\<lambda>constraints. Inr (constraints, ''1'')),
      pattern_symmetry_time = 0,
      solve_homomorphism_problem = (\<lambda>p. Inr outcome),
      overall_time = 0,
      pattern_vertex_name = show_int, target_vertex_name = show_int\<rparr>"

text \<open>Three outcomes of the solver: the timeout struck before anything was found; the
  search ended without a mapping; two solutions were enumerated.\<close>

definition outcome_aborted :: solved where
  "outcome_aborted =
     \<lparr>result = \<lparr>mapping = [], solution_count = 0, nodes = 5, propagations = 7,
                extra_stats = []\<rparr>,
      enumerated = [], timeout_aborted = True\<rparr>"

definition outcome_none :: solved where
  "outcome_none =
     \<lparr>result = \<lparr>mapping = [], solution_count = 0, nodes = 5, propagations = 7,
                extra_stats = []\<rparr>,
      enumerated = [], timeout_aborted = False\<rparr>"

definition outcome_two :: solved where
  "outcome_two =
     \<lparr>result = \<lparr>mapping = [], solution_count = 2, nodes = 3, propagations = 2,
                extra_stats = []\<rparr>,
      enumerated = [[(0, 0)], [(0, 1)]], timeout_aborted = False\<rparr>"

section \<open>The Luby restart schedule\<close>

text \<open>
  Modelled from the spec: the class \<open>LubyRestartsSchedule\<close> lives in restarts.hh and
  restarts.cc, which are not part of the driver; \<open>main\<close> only constructs it from a
  multiplier.  The spec gives its contract: \<open>next_budget(restart_index)\<close> is the multiplier
  times the term of the standard Luby sequence for that index.  The standard sequence
  \<open>t\<^sub>1, t\<^sub>2, ...\<close> is \<open>t\<^sub>i = 2 ^ (k - 1)\<close> when \<open>i = 2 ^ k - 1\<close> and
  \<open>t\<^sub>i = t\<^sub>j\<close> with \<open>j = i - 2 ^ (k - 1) + 1\<close> when \<open>2 ^ (k - 1) \<le> i < 2 ^ k - 1\<close>.
  \<open>luby_in k i\<close> is \<open>t\<^sub>i\<close> for \<open>1 \<le> i < 2 ^ k\<close>: it looks for the \<open>k\<close> of the definition
  from above.  Restart index 0 takes the first term.
\<close>

fun luby_in :: "nat \<Rightarrow> nat \<Rightarrow> nat" where
  "luby_in 0 i = 1"
| "luby_in (Suc k) i =
     (if i = 2 ^ Suc k - 1 then 2 ^ k
      else if 2 ^ k \<le> i then luby_in k (i - 2 ^ k + 1)
      else luby_in k i)"

definition luby_term :: "nat \<Rightarrow> nat" where
  "luby_term i = luby_in i i"

text \<open>Modelled from the spec: the budget of the Luby schedule (restarts.cc is not part of
  the driver), the multiplier times the term for the restart index.\<close>

definition Luby_next_budget :: "nat \<Rightarrow> nat \<Rightarrow> nat" where
  "Luby_next_budget multiplier restart_index = multiplier * luby_term (Suc restart_index)"

section \<open>The search engine\<close>

text \<open>
  Modelled from the spec: \<open>solve_homomorphism_problem\<close> (homomorphism.hh) and the bigraph
  type (formats/bigraph.hh) are not part of the driver, which only calls the solver.  The
  model follows the spec's data model (section 3), its propagation engine (4.3) and the
  state machine of its search engine (4.5).
\<close>

subsection \<open>Bigraphs\<close>

text \<open>Modelled from the spec: the bigraph type of formats/bigraph.hh, after section 3.  A
  vertex is a small integer index; a port is a vertex with a port index.  The place forest
  gives each vertex an optional parent; the link hypergraph lists, for each link, the ports
  it connects.\<close>

type_synonym vertex = nat
type_synonym port = "vertex \<times> nat"

record Bigraph =
  vertex_count :: nat
  parent :: "vertex \<rightharpoonup> vertex"
  links :: "port list list"

text \<open>Modelled from the spec: the ancestor test of the bigraph model (4.1).  It walks up
  from \<open>v\<close> through the parents, at most as many steps as there are vertices (the forest
  is acyclic): \<open>u\<close> is an ancestor of \<open>v\<close> when the walk meets \<open>u\<close>.\<close>

fun climbs :: "nat \<Rightarrow> (vertex \<rightharpoonup> vertex) \<Rightarrow> vertex \<Rightarrow> vertex \<Rightarrow> bool" where
  "climbs 0 par u v = False"
| "climbs (Suc k) par u v =
     (case par v of None \<Rightarrow> False | Some p \<Rightarrow> p = u \<or> climbs k par u p)"

definition ancestor :: "Bigraph \<Rightarrow> vertex \<Rightarrow> vertex \<Rightarrow> bool" where
  "ancestor g u v = climbs (vertex_count g) (parent g) u v"

text \<open>Modelled from the spec: the link tests of the bigraph model (4.1).  Two ports are
  co-linked when one link connects both; two vertices are adjacent (the link-based
  adjacency test) when one link connects a port of each.\<close>

definition colinked :: "Bigraph \<Rightarrow> port \<Rightarrow> port \<Rightarrow> bool" where
  "colinked g p q = (\<exists>l \<in> set (links g). p \<in> set l \<and> q \<in> set l)"

definition adjacent :: "Bigraph \<Rightarrow> vertex \<Rightarrow> vertex \<Rightarrow> bool" where
  "adjacent g u v = (\<exists>l \<in> set (links g). u \<in> fst ` set l \<and> v \<in> fst ` set l)"

subsection \<open>Assignments and the checks on them\<close>

text \<open>The assignment is the stack of (pattern vertex, target vertex) pairs, newest first.\<close>

type_synonym assignment = "(vertex \<times> vertex) list"

text \<open>Modelled from the spec: the two re-checks of the propagation engine (4.3).
  Propagation after the tentative assignment of \<open>v\<close> to \<open>t\<close> re-checks the ancestry
  constraints for all pattern-vertex pairs involving \<open>v\<close> and link preservation for all
  pattern links touching \<open>v\<close>, against the assignment extended by the new pair.\<close>

definition ancestry_ok :: "Bigraph \<Rightarrow> Bigraph \<Rightarrow> assignment \<Rightarrow> vertex \<Rightarrow> vertex \<Rightarrow> bool" where
  "ancestry_ok P T M v t =
     (\<forall>(u, s) \<in> set ((v, t) # M).
        (ancestor P u v \<longrightarrow> ancestor T s t) \<and> (ancestor P v u \<longrightarrow> ancestor T t s))"

definition links_ok :: "Bigraph \<Rightarrow> Bigraph \<Rightarrow> assignment \<Rightarrow> vertex \<Rightarrow> vertex \<Rightarrow> bool" where
  "links_ok P T M v t =
     (\<forall>l \<in> set (links P). \<forall>(v', i) \<in> set l. v' = v \<longrightarrow>
        (\<forall>(u, j) \<in> set l. \<forall>(u', s) \<in> set ((v, t) # M). u' = u \<longrightarrow>
           colinked T (t, i) (s, j) \<and> colinked T (s, j) (t, i)))"

definition propagate :: "Bigraph \<Rightarrow> Bigraph \<Rightarrow> assignment \<Rightarrow> vertex \<Rightarrow> vertex \<Rightarrow> bool" where
  "propagate P T M v t = (ancestry_ok P T M v t \<and> links_ok P T M v t)"

text \<open>Modelled from the spec: the validation in state \<open>SOLUTION\<close> (4.5) and the oracle
  adapter (4.8): injectivity, then, when \<open>induced\<close> holds, the converse direction, then
  the oracle if one is configured.  The converse direction is
  checked on the target side: images that are adjacent come from adjacent pattern vertices,
  and co-linked ports of images come from co-linked pattern ports.\<close>

definition injective :: "assignment \<Rightarrow> bool" where
  "injective M = distinct (map snd M)"

definition induced_ok :: "Bigraph \<Rightarrow> Bigraph \<Rightarrow> assignment \<Rightarrow> bool" where
  "induced_ok P T M =
     ((\<forall>(u, s) \<in> set M. \<forall>(v, t) \<in> set M. adjacent T s t \<longrightarrow> adjacent P u v) \<and>
      (\<forall>l \<in> set (links T). \<forall>(s, i) \<in> set l. \<forall>(t, j) \<in> set l.
         \<forall>(u, s') \<in> set M. \<forall>(v, t') \<in> set M.
           s' = s \<and> t' = t \<longrightarrow> colinked P (u, i) (v, j)))"

datatype answer = Accept | Reject | Error

type_synonym MatchOracle = "(assignment \<Rightarrow> answer) option"

definition structurally_valid ::
  "Bigraph \<Rightarrow> Bigraph \<Rightarrow> 'd HomomorphismParams \<Rightarrow> assignment \<Rightarrow> bool" where
  "structurally_valid P T p M = (injective M \<and> (induced p \<longrightarrow> induced_ok P T M))"

definition consult :: "MatchOracle \<Rightarrow> assignment \<Rightarrow> answer" where
  "consult ask M = (case ask of None \<Rightarrow> Accept | Some f \<Rightarrow> f M)"

definition validate ::
  "Bigraph \<Rightarrow> Bigraph \<Rightarrow> 'd HomomorphismParams \<Rightarrow> MatchOracle \<Rightarrow> assignment \<Rightarrow> bool" where
  "validate P T p ask M = (structurally_valid P T p M \<and> consult ask M = Accept)"

subsection \<open>The state machine\<close>

datatype state =
    SELECT_VARIABLE
  | SELECT_VALUE vertex
  | PROPAGATE vertex vertex
  | BACKTRACK
  | SOLUTION
  | RESTART
  | DONE

text \<open>Modelled from the spec: the state machine of the search engine (4.5).  A
  configuration is the state, the assignment and the mappings accepted so far (counted,
  handed to the enumeration callback, or returned), newest first.  The choices
  the spec leaves to heuristics, filters, schedules and the clock are choices of the
  relation: which unassigned vertex and which value come next, whether a filter fails a
  propagation that the two re-checks pass, when a restart or the timeout strikes.  A
  mapping is accepted in state \<open>SOLUTION\<close> only, after the validation; an oracle error
  ends the solve without accepting.\<close>

type_synonym config = "state \<times> assignment \<times> assignment list"

inductive step ::
  "Bigraph \<Rightarrow> Bigraph \<Rightarrow> 'd HomomorphismParams \<Rightarrow> MatchOracle \<Rightarrow> config \<Rightarrow> config \<Rightarrow> bool"
  for pat tgt p ask where
    select_variable:
      "v < vertex_count pat \<Longrightarrow> v \<notin> fst ` set M \<Longrightarrow>
       step pat tgt p ask (SELECT_VARIABLE, M, A) (SELECT_VALUE v, M, A)"
  | all_assigned:
      "\<forall>v < vertex_count pat. v \<in> fst ` set M \<Longrightarrow>
       step pat tgt p ask (SELECT_VARIABLE, M, A) (SOLUTION, M, A)"
  | timed_out:
      "step pat tgt p ask (SELECT_VARIABLE, M, A) (DONE, M, A)"
  | triggered_restart:
      "step pat tgt p ask (SELECT_VARIABLE, M, A) (RESTART, M, A)"
  | select_value:
      "t < vertex_count tgt \<Longrightarrow>
       step pat tgt p ask (SELECT_VALUE v, M, A) (PROPAGATE v t, M, A)"
  | values_exhausted:
      "step pat tgt p ask (SELECT_VALUE v, M, A) (BACKTRACK, M, A)"
  | propagate_success:
      "propagate pat tgt M v t \<Longrightarrow>
       step pat tgt p ask (PROPAGATE v t, M, A) (SELECT_VARIABLE, (v, t) # M, A)"
  | propagate_failure:
      "step pat tgt p ask (PROPAGATE v t, M, A) (SELECT_VALUE v, M, A)"
  | backtrack:
      "step pat tgt p ask (BACKTRACK, (v, t) # M, A) (SELECT_VALUE v, M, A)"
  | backtrack_at_root:
      "step pat tgt p ask (BACKTRACK, [], A) (DONE, [], A)"
  | budget_exhausted:
      "step pat tgt p ask (BACKTRACK, M, A) (RESTART, M, A)"
  | restart:
      "step pat tgt p ask (RESTART, M, A) (SELECT_VARIABLE, [], A)"
  | solution_counted:
      "validate pat tgt p ask M \<Longrightarrow> count_solutions p \<Longrightarrow>
       step pat tgt p ask (SOLUTION, M, A) (BACKTRACK, M, M # A)"
  | solution_enumerated:
      "validate pat tgt p ask M \<Longrightarrow> \<not> count_solutions p \<Longrightarrow> enumerate_callback p \<Longrightarrow>
       step pat tgt p ask (SOLUTION, M, A) (BACKTRACK, M, M # A)"
  | solution_found:
      "validate pat tgt p ask M \<Longrightarrow> \<not> count_solutions p \<Longrightarrow> \<not> enumerate_callback p \<Longrightarrow>
       step pat tgt p ask (SOLUTION, M, A) (DONE, M, M # A)"
  | solution_rejected:
      "\<not> structurally_valid pat tgt p M \<or> consult ask M = Reject \<Longrightarrow>
       step pat tgt p ask (SOLUTION, M, A) (BACKTRACK, M, A)"
  | oracle_error:
      "structurally_valid pat tgt p M \<Longrightarrow> consult ask M = Error \<Longrightarrow>
       step pat tgt p ask (SOLUTION, M, A) (DONE, M, A)"

definition reachable ::
  "Bigraph \<Rightarrow> Bigraph \<Rightarrow> 'd HomomorphismParams \<Rightarrow> MatchOracle \<Rightarrow> config \<Rightarrow> bool" where
  "reachable P T p ask c = (step P T p ask)\<^sup>*\<^sup>* (SELECT_VARIABLE, [], []) c"

text \<open>The mappings the solver accepts: those a reachable configuration has accepted.\<close>

definition accepts ::
  "Bigraph \<Rightarrow> Bigraph \<Rightarrow> 'd HomomorphismParams \<Rightarrow> MatchOracle \<Rightarrow> assignment \<Rightarrow> bool" where
  "accepts P T p ask M = (\<exists>st M' A. reachable P T p ask (st, M', A) \<and> M \<in> set A)"

text \<open>What the checks keep true of an assignment: no pattern vertex is assigned twice, and
  ancestry and links are preserved among the assigned vertices.\<close>

definition consistent :: "Bigraph \<Rightarrow> Bigraph \<Rightarrow> assignment \<Rightarrow> bool" where
  "consistent P T M =
     (distinct (map fst M) \<and>
      (\<forall>(u, s) \<in> set M. \<forall>(v, t) \<in> set M. ancestor P u v \<longrightarrow> ancestor T s t) \<and>
      (\<forall>l \<in> set (links P). \<forall>(u, i) \<in> set l. \<forall>(v, j) \<in> set l.
         \<forall>s t. (u, s) \<in> set M \<and> (v, t) \<in> set M \<longrightarrow> colinked T (s, i) (t, j)))"

definition complete :: "Bigraph \<Rightarrow> assignment \<Rightarrow> bool" where
  "complete P M = (\<forall>v < vertex_count P. v \<in> fst ` set M)"

text \<open>The invariant of the state machine.\<close>

fun state_ok :: "Bigraph \<Rightarrow> assignment \<Rightarrow> state \<Rightarrow> bool" where
  "state_ok P M (SELECT_VALUE v) = (v \<notin> fst ` set M)"
| "state_ok P M (PROPAGATE v t) = (v \<notin> fst ` set M)"
| "state_ok P M SOLUTION = complete P M"
| "state_ok P M _ = True"

definition invariant ::
  "Bigraph \<Rightarrow> Bigraph \<Rightarrow> 'd HomomorphismParams \<Rightarrow> MatchOracle \<Rightarrow> config \<Rightarrow> bool" where
  "invariant P T p ask c =
     (case c of (st, M, A) \<Rightarrow>
        consistent P T M \<and> state_ok P M st \<and>
        (\<forall>N \<in> set A. consistent P T N \<and> complete P N \<and> validate P T p ask N))"

subsection \<open>An example\<close>

text \<open>A pattern of two vertices, the second inside the first, with one link joining port 0
  of each; a target with the same two vertices and a third, unlinked root.\<close>

definition example_pattern :: Bigraph where
  "example_pattern =
     \<lparr>vertex_count = 2, parent = [1 \<mapsto> 0], links = [[(0, 0), (1, 0)]]\<rparr>"

definition example_target :: Bigraph where
  "example_target =
     \<lparr>vertex_count = 3, parent = [1 \<mapsto> 0], links = [[(0, 0), (1, 0)]]\<rparr>"

text \<open>The parameters \<open>main\<close> gives the solver for the command line that names the two files
  only, before the schedule is chosen: injective, induced, not counting.\<close>

definition example_params :: "real HomomorphismParams" where
  "example_params = basic_params example_params0 files_only"

section \<open>Properties of the driver\<close>

subsection \<open>Auxiliary facts\<close>

lemma solver_calls_append [simp]: "solver_calls (xs @ ys) = solver_calls xs @ solver_calls ys"
  by (induction xs rule: solver_calls.induct) simp_all

lemma io_put [simp]:
  "cout (put l s) = cout s @ [l]" "cerr (put l s) = cerr s" "trace (put l s) = trace s"
  by (simp_all add: put_def)

lemma io_put_err [simp]:
  "cout (put_err l s) = cout s" "cerr (put_err l s) = cerr s @ [l]" "trace (put_err l s) = trace s"
  by (simp_all add: put_err_def)

lemma io_puts [simp]:
  "cout (puts ls s) = cout s @ ls" "cerr (puts ls s) = cerr s" "trace (puts ls s) = trace s"
  by (simp_all add: puts_def)

lemma io_call [simp]:
  "cout (call e s) = cout s" "cerr (call e s) = cerr s" "trace (call e s) = trace s @ [e]"
  by (simp_all add: call_def)

lemma io_io0 [simp]: "cout io0 = []" "cerr io0 = []" "trace io0 = []"
  by (simp_all add: io0_def)

lemma io_announce [simp]: "cerr (announce w s) = cerr s" "trace (announce w s) = trace s"
  by (simp_all add: announce_def Let_def split: option.splits)

lemma basic_params_fields [simp]:
  "injectivity (basic_params params0 vm) = Injective"
  "induced (basic_params params0 vm) = True"
  "bigraph (basic_params params0 vm) = True"
  "count_solutions (basic_params params0 vm) = (opt_count_solutions vm \<or> opt_print_all_solutions vm)"
  "value_ordering_heuristic (basic_params params0 vm) = value_ordering_heuristic params0"
  "pattern_less_constraints (basic_params params0 vm) = pattern_less_constraints params0"
  "restarts_schedule (basic_params params0 vm) = restarts_schedule params0"
  "enumerate_callback (basic_params params0 vm) = enumerate_callback params0"
  by (simp_all add: basic_params_def Let_def split: option.splits)

text \<open>What a configuration that gets through has established.\<close>

lemma configure_Inr:
  assumes "configure d params0 w vm s = Inr (c, s')"
  shows "s' = s"
    and "\<not> opt_help vm"
    and "opt_pattern_file vm \<noteq> None" and "opt_target_file vm \<noteq> None"
    and "injectivity (params c) = Injective"
    and "induced (params c)"
    and "count_solutions (params c) = (opt_count_solutions vm \<or> opt_print_all_solutions vm)"
    and "choose_restarts d vm (opt_count_solutions vm \<or> opt_print_all_solutions vm)
           = Inr (the (restarts_schedule (params c)))"
    and "restarts_schedule (params c) \<noteq> None"
    and "\<not> one_lackey_pipe_only vm"
  using assms
  by (auto simp: configure_def Let_def split: if_splits sum.splits)

lemma configure_Inl:
  assumes "configure d params0 w vm s = Inl (status, s')"
  shows "trace s' = trace s" and "cout s' = cout s \<or> cerr s' = cerr s"
  using assms
  by (auto simp: configure_def Let_def split: if_splits sum.splits)


lemma read_in_Inr:
  "read_in w vm s = Inr s' \<Longrightarrow>
     trace s' = trace s @ [CallReadGraphs] \<and> cerr s' = cerr s"
  by (auto simp: read_in_def split: option.splits if_splits)

lemma read_in_Inl:
  "read_in w vm s = Inl (e, s') \<Longrightarrow>
     (trace s' = trace s \<or> trace s' = trace s @ [CallReadGraphs]) \<and> cerr s' = cerr s
     \<and> cout s' = cout s"
  by (auto simp: read_in_def split: option.splits if_splits)

lemma attach_lackey_Inr:
  "attach_lackey w vm p s = Inr (p', s') \<Longrightarrow>
     injectivity p' = injectivity p \<and> induced p' = induced p
     \<and> count_solutions p' = count_solutions p
     \<and> restarts_schedule p' = restarts_schedule p
     \<and> enumerate_callback p' = enumerate_callback p
     \<and> solver_calls (trace s') = solver_calls (trace s) \<and> cerr s' = cerr s
     \<and> (\<forall>a b. CallLackey a b \<in> set (trace s') \<longrightarrow>
            CallLackey a b \<in> set (trace s)
            \<or> opt_send_to_lackey vm = Some a \<and> opt_receive_from_lackey vm = Some b)"
  by (auto simp: attach_lackey_def split: option.splits)

lemma attach_lackey_Inl:
  "attach_lackey w vm p s = Inl (e, s') \<Longrightarrow>
     solver_calls (trace s') = solver_calls (trace s) \<and> cerr s' = cerr s
     \<and> (\<forall>a b. CallLackey a b \<in> set (trace s') \<longrightarrow>
            CallLackey a b \<in> set (trace s)
            \<or> opt_send_to_lackey vm = Some a \<and> opt_receive_from_lackey vm = Some b)"
  by (auto simp: attach_lackey_def split: option.splits)

lemma callback_and_timeout_eq:
  "callback_and_timeout vm p s = (p', s') \<Longrightarrow>
     injectivity p' = injectivity p \<and> induced p' = induced p
     \<and> count_solutions p' = count_solutions p
     \<and> restarts_schedule p' = restarts_schedule p
     \<and> enumerate_callback p' = (opt_print_all_solutions vm \<or> enumerate_callback p)
     \<and> solver_calls (trace s') = solver_calls (trace s) \<and> cerr s' = cerr s
     \<and> (\<forall>a b. CallLackey a b \<in> set (trace s') \<longrightarrow> CallLackey a b \<in> set (trace s))"
  by (auto simp: callback_and_timeout_def Let_def split: if_splits)

lemma symmetries_Inr:
  "symmetries w vm c p s = Inr (p', s') \<Longrightarrow>
     injectivity p' = injectivity p \<and> induced p' = induced p
     \<and> count_solutions p' = count_solutions p
     \<and> restarts_schedule p' = restarts_schedule p
     \<and> enumerate_callback p' = enumerate_callback p
     \<and> solver_calls (trace s') = solver_calls (trace s) \<and> cerr s' = cerr s
     \<and> (\<forall>a b. CallLackey a b \<in> set (trace s') \<longrightarrow> CallLackey a b \<in> set (trace s))"
  by (auto simp: symmetries_def split: if_splits sum.splits)

lemma symmetries_Inl:
  "symmetries w vm c p s = Inl (e, s') \<Longrightarrow>
     solver_calls (trace s') = solver_calls (trace s) \<and> cerr s' = cerr s
     \<and> (\<forall>a b. CallLackey a b \<in> set (trace s') \<longrightarrow> CallLackey a b \<in> set (trace s))"
  by (auto simp: symmetries_def split: if_splits sum.splits)

lemma prepare_Inr:
  assumes "prepare w vm c s = Inr (p, s')"
  shows "injectivity p = injectivity (params c) \<and> induced p = induced (params c)
     \<and> count_solutions p = count_solutions (params c)
     \<and> restarts_schedule p = restarts_schedule (params c)
     \<and> enumerate_callback p = (opt_print_all_solutions vm \<or> enumerate_callback (params c))
     \<and> solver_calls (trace s') = solver_calls (trace s) \<and> cerr s' = cerr s
     \<and> (\<forall>a b. CallLackey a b \<in> set (trace s') \<longrightarrow>
            CallLackey a b \<in> set (trace s)
            \<or> opt_send_to_lackey vm = Some a \<and> opt_receive_from_lackey vm = Some b)"
proof -
  from assms obtain s1 p1 s2 p2 s3 where
    r: "read_in w vm s = Inr s1" and
    l: "attach_lackey w vm (params c) s1 = Inr (p1, s2)" and
    t: "callback_and_timeout vm p1 s2 = (p2, s3)" and
    y: "symmetries w vm c p2 s3 = Inr (p, s')"
    by (auto simp: prepare_def split: sum.splits prod.splits)
  from read_in_Inr [OF r] attach_lackey_Inr [OF l] callback_and_timeout_eq [OF t]
    symmetries_Inr [OF y]
  show ?thesis by auto
qed

lemma prepare_Inl:
  assumes "prepare w vm c s = Inl (e, s')"
  shows "solver_calls (trace s') = solver_calls (trace s) \<and> cerr s' = cerr s
     \<and> (\<forall>a b. CallLackey a b \<in> set (trace s') \<longrightarrow>
            CallLackey a b \<in> set (trace s)
            \<or> opt_send_to_lackey vm = Some a \<and> opt_receive_from_lackey vm = Some b)"
proof (cases "read_in w vm s")
  case (Inl x)
  with assms read_in_Inl [of w vm s e s'] show ?thesis
    by (auto simp: prepare_def)
next
  case r: (Inr s1)
  show ?thesis
  proof (cases "attach_lackey w vm (params c) s1")
    case (Inl x)
    with assms r read_in_Inr [OF r] attach_lackey_Inl [of w vm "params c" s1 e s']
    show ?thesis by (auto simp: prepare_def)
  next
    case (Inr x)
    then obtain p1 s2 where l: "attach_lackey w vm (params c) s1 = Inr (p1, s2)"
      by (cases x) auto
    obtain p2 s3 where t: "callback_and_timeout vm p1 s2 = (p2, s3)"
      by (cases "callback_and_timeout vm p1 s2") auto
    from assms r l t have y: "symmetries w vm c p2 s3 = Inl (e, s')"
      by (simp add: prepare_def)
    from read_in_Inr [OF r] attach_lackey_Inr [OF l] callback_and_timeout_eq [OF t]
      symmetries_Inl [OF y]
    show ?thesis by auto
  qed
qed


lemma io_report [simp]:
  "trace (report w vm p r s) = trace s" "cerr (report w vm p r s) = cerr s"
  by (simp_all add: report_def Let_def)

lemma report_status_line: "status_line p r \<in> set (cout (report w vm p r s))"
  by (simp add: report_def Let_def)

lemma report_solution_count:
  "count_solutions p \<Longrightarrow>
     ''solution_count = '' @ show_nat (solution_count (result r))
       \<in> set (cout (report w vm p r s))"
  by (simp add: report_def Let_def)

lemma handle_trace [simp]: "trace (snd (handle (e, s))) = trace s"
  by (cases e) (auto simp: handle_def split: exn.splits)

lemma solve_and_report_trace:
  "trace (snd (solve_and_report w vm p s)) = trace s @ [CallSolve p]"
  by (auto simp: solve_and_report_def split: sum.splits)

lemma main_solver_call:
  assumes "p \<in> set (solver_calls (trace (snd (main d params0 w parsed))))"
  shows "\<exists>vm c s1. parsed = Inr vm
           \<and> configure d params0 w vm io0 = Inr (c, io0)
           \<and> prepare w vm c (announce w io0) = Inr (p, s1)
           \<and> main d params0 w parsed = handle (solve_and_report w vm p s1)"
proof (cases parsed)
  case (Inl what)
  with assms show ?thesis by (simp add: main_def)
next
  case vm: (Inr vm)
  show ?thesis
  proof (cases "configure d params0 w vm io0")
    case (Inl x)
    then obtain status s where "configure d params0 w vm io0 = Inl (status, s)"
      by (cases x) auto
    with assms vm configure_Inl(1) [OF this] show ?thesis
      by (simp add: main_def)
  next
    case (Inr x)
    then obtain c s where "configure d params0 w vm io0 = Inr (c, s)"
      by (cases x) auto
    with configure_Inr(1) [OF this] have c: "configure d params0 w vm io0 = Inr (c, io0)"
      by simp
    show ?thesis
    proof (cases "prepare w vm c (announce w io0)")
      case (Inl y)
      then obtain e s1 where y: "prepare w vm c (announce w io0) = Inl (e, s1)"
        by (cases y) auto
      with assms vm c prepare_Inl [OF y] show ?thesis
        by (simp add: main_def run_def)
    next
      case (Inr y)
      then obtain q s1 where y: "prepare w vm c (announce w io0) = Inr (q, s1)"
        by (cases y) auto
      have m: "main d params0 w parsed = handle (solve_and_report w vm q s1)"
        using vm c y by (simp add: main_def run_def)
      have "trace (snd (main d params0 w parsed)) = trace s1 @ [CallSolve q]"
        unfolding m by (cases "solve_and_report w vm q s1") (use solve_and_report_trace [of w vm q s1] in auto)
      with assms prepare_Inr [OF y] have "p = q" by simp
      with vm c y m show ?thesis by simp
    qed
  qed
qed

lemma choose_restarts_unknown:
  "unknown_restarts vm \<Longrightarrow> choose_restarts d vm b = Inl (the (opt_restarts vm))"
  by (auto simp: unknown_restarts_def choose_restarts_def restart_policy_names_def
           split: option.splits)

lemma choose_restarts_known:
  "\<not> unknown_restarts vm \<Longrightarrow> \<exists>schedule. choose_restarts d vm b = Inr schedule"
  by (auto simp: unknown_restarts_def choose_restarts_def restart_policy_names_def
           split: option.splits)

lemma choose_value_ordering_unknown:
  "unknown_value_ordering vm \<Longrightarrow>
     choose_value_ordering vm current = Inl (the (opt_value_ordering vm))"
  by (auto simp: unknown_value_ordering_def choose_value_ordering_def heuristic_names_def
           split: option.splits)

lemma choose_value_ordering_known:
  "\<not> unknown_value_ordering vm \<Longrightarrow> \<exists>chosen. choose_value_ordering vm current = Inr chosen"
  by (auto simp: unknown_value_ordering_def choose_value_ordering_def heuristic_names_def
           split: option.splits)

lemma less_thans_find:
  "less_thans ss cs =
     (case find (\<lambda>s. CHR ''<'' \<notin> set s) ss of
        Some bad \<Rightarrow> Inl bad
      | None \<Rightarrow> Inr (cs @ map (\<lambda>s. (takeWhile (\<lambda>c. c \<noteq> CHR ''<'') s,
                                      tl (dropWhile (\<lambda>c. c \<noteq> CHR ''<'') s))) ss))"
  by (induction ss arbitrary: cs) (simp_all add: Let_def split: option.splits)

lemma find_bad:
  "bad \<in> set ss \<Longrightarrow> CHR ''<'' \<notin> set bad \<Longrightarrow>
     \<exists>first. find (\<lambda>s. CHR ''<'' \<notin> set s) ss = Some first"
  by (cases "find (\<lambda>s. CHR ''<'' \<notin> set s) ss") (auto simp: find_None_iff)

text \<open>The order of the checks in the configuration part.\<close>

lemma configure_checks:
  assumes "\<not> opt_help vm"
  shows "configure d params0 w vm s =
    (if opt_pattern_file vm = None \<or> opt_target_file vm = None then
       Inl (EXIT_FAILURE, put (usage w) s)
     else if unknown_restarts vm then
       Inl (EXIT_FAILURE,
            put_err (''Unknown restarts policy '' @ quoted (the (opt_restarts vm))) s)
     else if unknown_value_ordering vm then
       Inl (EXIT_FAILURE,
            put_err (''Unknown value-ordering heuristic '' @ quoted (the (opt_value_ordering vm))) s)
     else (case find (\<lambda>s. CHR ''<'' \<notin> set s) (opt_pattern_less_than vm) of
        Some bad \<Rightarrow>
          Inl (EXIT_FAILURE, put_err (''Invalid pattern less-than constraint '' @ quoted bad) s)
      | None \<Rightarrow>
          if one_lackey_pipe_only vm then
            Inl (EXIT_FAILURE,
                 put_err ''Must specify both of --send-to-lackey and --receive-from-lackey'' s)
          else configure d params0 w vm s))"
proof (cases "opt_pattern_file vm = None \<or> opt_target_file vm = None")
  case True
  then have "configure d params0 w vm s = Inl (EXIT_FAILURE, put (usage w) s)"
    using assms by (simp add: configure_def)
  with True show ?thesis by simp
next
  case files: False
  show ?thesis
  proof (cases "unknown_restarts vm")
    case True
    with assms files choose_restarts_unknown [OF True] show ?thesis
      by (auto simp: configure_def Let_def)
  next
    case r: False
    from choose_restarts_known [OF r] obtain schedule where
      s: "choose_restarts d vm (count_solutions (basic_params params0 vm)) = Inr schedule"
      by blast
    show ?thesis
    proof (cases "unknown_value_ordering vm")
      case True
      with assms files r s choose_value_ordering_unknown [OF True] show ?thesis
        by (auto simp: configure_def Let_def)
    next
      case v: False
      from choose_value_ordering_known [OF v] obtain chosen where
        c: "choose_value_ordering vm (value_ordering_heuristic params0) = Inr chosen"
        by blast
      from assms files r v s c show ?thesis
        by (auto simp: configure_def Let_def less_thans_find split: option.splits)
    qed
  qed
qed

lemma EXIT_FAILURE_nonzero: "EXIT_FAILURE \<noteq> 0"
  by (simp add: EXIT_FAILURE_def)

lemma main_lackey_calls:
  assumes "CallLackey a b \<in> set (trace (snd (main d params0 w parsed)))"
  shows "\<exists>vm. parsed = Inr vm \<and> opt_send_to_lackey vm = Some a
              \<and> opt_receive_from_lackey vm = Some b"
proof (cases parsed)
  case (Inl what)
  with assms show ?thesis by (simp add: main_def)
next
  case vm: (Inr vm)
  show ?thesis
  proof (cases "configure d params0 w vm io0")
    case (Inl x)
    then obtain status s where "configure d params0 w vm io0 = Inl (status, s)"
      by (cases x) auto
    with assms vm configure_Inl(1) [OF this] show ?thesis
      by (simp add: main_def)
  next
    case (Inr x)
    then obtain c s where "configure d params0 w vm io0 = Inr (c, s)"
      by (cases x) auto
    with configure_Inr(1) [OF this] have c: "configure d params0 w vm io0 = Inr (c, io0)"
      by simp
    show ?thesis
    proof (cases "prepare w vm c (announce w io0)")
      case (Inl y)
      then obtain e s1 where y: "prepare w vm c (announce w io0) = Inl (e, s1)"
        by (cases y) auto
      with assms vm c prepare_Inl [OF y] show ?thesis
        by (simp add: main_def run_def)
    next
      case (Inr y)
      then obtain q s1 where y: "prepare w vm c (announce w io0) = Inr (q, s1)"
        by (cases y) auto
      have m: "main d params0 w parsed = handle (solve_and_report w vm q s1)"
        using vm c y by (simp add: main_def run_def)
      have "trace (snd (main d params0 w parsed)) = trace s1 @ [CallSolve q]"
        unfolding m by (cases "solve_and_report w vm q s1") (use solve_and_report_trace [of w vm q s1] in auto)
      with assms vm prepare_Inr [OF y] show ?thesis by simp
    qed
  qed
qed

lemmas driver_defs =
  main_def configure_def basic_params_def choose_restarts_def choose_value_ordering_def
  one_lackey_pipe_only_def run_def prepare_def read_in_def attach_lackey_def
  callback_and_timeout_def symmetries_def solve_and_report_def handle_def report_def
  announce_def status_line_def Let_def EXIT_SUCCESS_def EXIT_FAILURE_def

lemmas example_defs =
  files_only_def example_defaults_def example_params0_def example_world_def
  outcome_aborted_def outcome_none_def outcome_two_def

lemma in_nonempty: "xs \<noteq> [] \<Longrightarrow> \<exists>x. x \<in> set xs"
  by (cases xs) auto

subsection \<open>What the solver is called with\<close>

text \<open>
  C2.  Every call of the solver is made with \<open>injectivity\<close> set to injective and with
  \<open>induced\<close> set to true, whatever the command line says and whatever the
  default-constructed parameters hold; \<open>main\<close> registers no option named induced, so the
  caller cannot switch \<open>induced\<close> off (or on).
\<close>

theorem solver_is_called_injective_and_induced:
  assumes "p \<in> set (solver_calls (trace (snd (main d params0 w parsed))))"
  shows "injectivity p = Injective \<and> induced p \<and> ''induced'' \<notin> set option_names"
proof -
  from main_solver_call [OF assms] obtain vm c s1 where
    c: "configure d params0 w vm io0 = Inr (c, io0)" and
    y: "prepare w vm c (announce w io0) = Inr (p, s1)"
    by blast
  from configure_Inr(5,6) [OF c] prepare_Inr [OF y]
  show ?thesis by (simp add: option_names_def)
qed


text \<open>The command line that names the two files and nothing else already runs the solver
  with \<open>induced\<close> set, although the default-constructed parameters have it unset.\<close>

theorem induced_is_not_an_option:
  "map induced (solver_calls (trace (snd (main example_defaults example_params0
       (example_world outcome_none) (Inr files_only))))) = [True]
   \<and> \<not> induced example_params0
   \<and> ''induced'' \<notin> set option_names
   \<and> \<not> (\<exists>d params0 w parsed p.
           p \<in> set (solver_calls (trace (snd (main d params0 (w :: real world) parsed))))
           \<and> \<not> induced p)"
proof -
  have "induced p"
    if h: "p \<in> set (solver_calls (trace (snd (main d params0 w parsed))))"
    for d params0 and w :: "real world" and parsed p
  proof -
    from main_solver_call [OF h] obtain vm c s1 where
      c: "configure d params0 w vm io0 = Inr (c, io0)" and
      y: "prepare w vm c (announce w io0) = Inr (p, s1)"
      by blast
    from configure_Inr(6) [OF c] prepare_Inr [OF y] show ?thesis by simp
  qed
  then have "\<not> (\<exists>d params0 w parsed p.
           p \<in> set (solver_calls (trace (snd (main d params0 (w :: real world) parsed))))
           \<and> \<not> induced p)"
    by blast
  then show ?thesis
    by (simp add: driver_defs example_defs option_names_def)
qed

theorem solver_is_called_injective_and_induced_witness:
  "\<exists>p. p \<in> set (solver_calls (trace (snd (main example_defaults example_params0
              (example_world outcome_none) (Inr files_only)))))
       \<and> injectivity p = Injective \<and> induced p
       \<and> injectivity example_params0 = NonInjective \<and> \<not> induced example_params0"
proof -
  have "solver_calls (trace (snd (main example_defaults example_params0
          (example_world outcome_none) (Inr files_only)))) \<noteq> []"
    by (simp add: driver_defs example_defs)
  then obtain p where h: "p \<in> set (solver_calls (trace (snd (main example_defaults
        example_params0 (example_world outcome_none) (Inr files_only)))))"
    using in_nonempty by blast
  from solver_is_called_injective_and_induced [OF h]
  have "injectivity p = Injective \<and> induced p" by simp
  moreover have "injectivity example_params0 = NonInjective \<and> \<not> induced example_params0"
    by (simp add: example_params0_def)
  ultimately show ?thesis using h by blast
qed

text \<open>
  C9.  When no restart policy is specified, the solver is called with a schedule that
  depends on the other options: no restarts when counting solutions (with
  \<open>--count-solutions\<close> or \<open>--print-all-solutions\<close>), else timed restarts with the default
  parameters when \<open>--parallel\<close> is given, else Luby restarts with the default multiplier.
\<close>

theorem unspecified_restarts_schedule:
  assumes "p \<in> set (solver_calls (trace (snd (main d params0 w (Inr vm)))))"
    and "opt_restarts vm = None"
  shows "restarts_schedule p =
           Some (if opt_count_solutions vm \<or> opt_print_all_solutions vm
                   then NoRestartsSchedule
                 else if opt_parallel vm
                   then TimedRestartsSchedule (Timed_default_duration d)
                                              (Timed_default_minimum_backtracks d)
                 else LubyRestartsSchedule (Luby_default_multiplier d))"
proof -
  from main_solver_call [OF assms(1)] obtain c s1 where
    c: "configure d params0 w vm io0 = Inr (c, io0)" and
    y: "prepare w vm c (announce w io0) = Inr (p, s1)"
    by blast
  from configure_Inr(8,9) [OF c] prepare_Inr [OF y] assms(2)
  show ?thesis by (auto simp: choose_restarts_def split: if_splits)
qed


theorem unspecified_restarts_schedule_witness:
  "(\<exists>p. p \<in> set (solver_calls (trace (snd (main example_defaults example_params0
              (example_world outcome_none) (Inr files_only)))))
       \<and> restarts_schedule p = Some (LubyRestartsSchedule 666))
   \<and> (\<exists>p. p \<in> set (solver_calls (trace (snd (main example_defaults example_params0
              (example_world outcome_none) (Inr (files_only\<lparr>opt_parallel := True\<rparr>))))))
       \<and> restarts_schedule p = Some (TimedRestartsSchedule 100 100))
   \<and> (\<exists>p. p \<in> set (solver_calls (trace (snd (main example_defaults example_params0
              (example_world outcome_none)
              (Inr (files_only\<lparr>opt_parallel := True, opt_count_solutions := True\<rparr>))))))
       \<and> restarts_schedule p = Some NoRestartsSchedule)"
proof (intro conjI)
  let ?run = "\<lambda>vm. solver_calls (trace (snd (main example_defaults example_params0
                      (example_world outcome_none) (Inr vm))))"
  have "?run files_only \<noteq> []"
    by (simp add: driver_defs example_defs)
  then obtain p where h: "p \<in> set (?run files_only)"
    using in_nonempty by blast
  have n: "opt_restarts files_only = None"
    by (simp add: files_only_def)
  from unspecified_restarts_schedule [OF h n]
  have "restarts_schedule p = Some (LubyRestartsSchedule 666)"
    by (simp add: example_defs)
  with h show "\<exists>p. p \<in> set (?run files_only)
                 \<and> restarts_schedule p = Some (LubyRestartsSchedule 666)"
    by blast
next
  let ?run = "\<lambda>vm. solver_calls (trace (snd (main example_defaults example_params0
                      (example_world outcome_none) (Inr vm))))"
  let ?vm = "files_only\<lparr>opt_parallel := True\<rparr>"
  have "?run ?vm \<noteq> []"
    by (simp add: driver_defs example_defs)
  then obtain p where h: "p \<in> set (?run ?vm)"
    using in_nonempty by blast
  have n: "opt_restarts ?vm = None"
    by (simp add: files_only_def)
  from unspecified_restarts_schedule [OF h n]
  have "restarts_schedule p = Some (TimedRestartsSchedule 100 100)"
    by (simp add: example_defs)
  with h show "\<exists>p. p \<in> set (?run ?vm)
                 \<and> restarts_schedule p = Some (TimedRestartsSchedule 100 100)"
    by blast
next
  let ?run = "\<lambda>vm. solver_calls (trace (snd (main example_defaults example_params0
                      (example_world outcome_none) (Inr vm))))"
  let ?vm = "files_only\<lparr>opt_parallel := True, opt_count_solutions := True\<rparr>"
  have "?run ?vm \<noteq> []"
    by (simp add: driver_defs example_defs)
  then obtain p where h: "p \<in> set (?run ?vm)"
    using in_nonempty by blast
  have n: "opt_restarts ?vm = None"
    by (simp add: files_only_def)
  from unspecified_restarts_schedule [OF h n]
  have "restarts_schedule p = Some NoRestartsSchedule"
    by (simp add: example_defs)
  with h show "\<exists>p. p \<in> set (?run ?vm) \<and> restarts_schedule p = Some NoRestartsSchedule"
    by blast
qed

text \<open>
  C10.  The solver is called with \<open>count_solutions\<close> set exactly when
  \<open>--count-solutions\<close> or \<open>--print-all-solutions\<close> is given; so a run with
  \<open>--print-all-solutions\<close> in which the solver returns prints a \<open>solution_count\<close> line.
\<close>

theorem printing_solutions_counts_them:
  assumes "p \<in> set (solver_calls (trace (snd (main d params0 w (Inr vm)))))"
  shows "count_solutions p = (opt_count_solutions vm \<or> opt_print_all_solutions vm)
         \<and> (opt_print_all_solutions vm \<and> solve_homomorphism_problem w p = Inr r \<longrightarrow>
              ''solution_count = '' @ show_nat (solution_count (result r))
                \<in> set (cout (snd (main d params0 w (Inr vm)))))"
proof -
  from main_solver_call [OF assms(1)] obtain c s1 where
    c: "configure d params0 w vm io0 = Inr (c, io0)" and
    y: "prepare w vm c (announce w io0) = Inr (p, s1)" and
    m: "main d params0 w (Inr vm) = handle (solve_and_report w vm p s1)"
    by blast
  have cs: "count_solutions p = (opt_count_solutions vm \<or> opt_print_all_solutions vm)"
    using configure_Inr(7) [OF c] prepare_Inr [OF y] by simp
  show ?thesis
    using cs report_solution_count [of p r w vm]
    by (auto simp: m solve_and_report_def handle_def)
qed


theorem printing_solutions_counts_them_witness:
  "\<exists>p. p \<in> set (solver_calls (trace (snd (main example_defaults example_params0
              (example_world outcome_two)
              (Inr (files_only\<lparr>opt_print_all_solutions := True\<rparr>))))))
       \<and> \<not> opt_count_solutions (files_only\<lparr>opt_print_all_solutions := True\<rparr>)
       \<and> count_solutions p
       \<and> ''solution_count = 2'' \<in> set (cout (snd (main example_defaults example_params0
              (example_world outcome_two)
              (Inr (files_only\<lparr>opt_print_all_solutions := True\<rparr>)))))"
proof -
  let ?vm = "files_only\<lparr>opt_print_all_solutions := True\<rparr>"
  let ?main = "main example_defaults example_params0 (example_world outcome_two) (Inr ?vm)"
  have "solver_calls (trace (snd ?main)) \<noteq> []"
    by (simp add: driver_defs example_defs)
  then obtain p where h: "p \<in> set (solver_calls (trace (snd ?main)))"
    using in_nonempty by blast
  have o: "opt_print_all_solutions ?vm \<and> \<not> opt_count_solutions ?vm"
    by (simp add: files_only_def)
  have r: "solve_homomorphism_problem (example_world outcome_two) p = Inr outcome_two"
    by (simp add: example_world_def)
  have n: "show_nat (solution_count (result outcome_two)) = ''2''"
    by (simp add: outcome_two_def show_nat.simps)
  from printing_solutions_counts_them [OF h, of outcome_two] o r n h
  show ?thesis by auto
qed

subsection \<open>The timeout\<close>

text \<open>
  C5.  When the solver returns and the timeout reports that it struck, \<open>main\<close> returns
  \<open>EXIT_SUCCESS\<close>, which is 0 and differs from \<open>EXIT_FAILURE\<close>, writes nothing to
  \<open>cerr\<close>, and prints the status line "status = aborted"; that line differs from
  "status = false", which is what the same run reports when the timeout did not strike and
  no mapping or solution was found.
\<close>

theorem timeout_is_not_an_error:
  assumes "p \<in> set (solver_calls (trace (snd (main d params0 w (Inr vm)))))"
    and "solve_homomorphism_problem w p = Inr r"
    and "timeout_aborted r"
  shows "fst (main d params0 w (Inr vm)) = EXIT_SUCCESS \<and> EXIT_SUCCESS = 0
         \<and> EXIT_SUCCESS \<noteq> EXIT_FAILURE
         \<and> cerr (snd (main d params0 w (Inr vm))) = []
         \<and> status_line p r = ''status = aborted''
         \<and> status_line p r \<in> set (cout (snd (main d params0 w (Inr vm))))
         \<and> status_line p r \<noteq> ''status = false''
         \<and> status_line p (r\<lparr>timeout_aborted := False,
                              result := (result r)\<lparr>mapping := [], solution_count := 0\<rparr>\<rparr>)
             = ''status = false''"
proof -
  from main_solver_call [OF assms(1)] obtain c s1 where
    c: "configure d params0 w vm io0 = Inr (c, io0)" and
    y: "prepare w vm c (announce w io0) = Inr (p, s1)" and
    m: "main d params0 w (Inr vm) = handle (solve_and_report w vm p s1)"
    by blast
  have "cerr s1 = []" using prepare_Inr [OF y] by simp
  then show ?thesis
    using assms(2,3) report_status_line [of p r w vm]
    by (auto simp: m solve_and_report_def handle_def status_line_def EXIT_SUCCESS_def
                   EXIT_FAILURE_def)
qed


theorem timeout_is_not_an_error_witness:
  "\<exists>p. p \<in> set (solver_calls (trace (snd (main example_defaults example_params0
              (example_world outcome_aborted) (Inr files_only)))))
       \<and> solve_homomorphism_problem (example_world outcome_aborted) p = Inr outcome_aborted
       \<and> timeout_aborted outcome_aborted
       \<and> fst (main example_defaults example_params0
                (example_world outcome_aborted) (Inr files_only)) = 0
       \<and> ''status = aborted'' \<in> set (cout (snd (main example_defaults example_params0
                (example_world outcome_aborted) (Inr files_only))))"
proof -
  have "solver_calls (trace (snd (main example_defaults example_params0
          (example_world outcome_aborted) (Inr files_only)))) \<noteq> []"
    by (simp add: driver_defs example_defs)
  then obtain p where h1: "p \<in> set (solver_calls (trace (snd (main example_defaults
        example_params0 (example_world outcome_aborted) (Inr files_only)))))"
    using in_nonempty by blast
  have h2: "solve_homomorphism_problem (example_world outcome_aborted) p = Inr outcome_aborted"
    by (simp add: example_world_def)
  have h3: "timeout_aborted outcome_aborted"
    by (simp add: outcome_aborted_def)
  from timeout_is_not_an_error [OF h1 h2 h3] h1 h2 h3
  show ?thesis by (auto simp: EXIT_SUCCESS_def)
qed

subsection \<open>Rejected command lines\<close>

text \<open>
  C3.  An invocation without \<open>--help\<close> that names an unrecognised restart policy or an
  unrecognised value-ordering heuristic returns \<open>EXIT_FAILURE\<close> (which is not 0) without
  having read the graphs or called the solver, so nothing falls back to a default policy.
  When a file name is missing, the usage line is all it prints; otherwise it prints nothing
  to \<open>cout\<close> and one line to \<open>cerr\<close>, naming the unknown restart policy or, when the
  restart policy is fine, the unknown heuristic.
\<close>

theorem unknown_policy_is_fatal:
  assumes "\<not> opt_help vm"
    and "unknown_restarts vm \<or> unknown_value_ordering vm"
  shows "fst (main d params0 w (Inr vm)) = EXIT_FAILURE \<and> EXIT_FAILURE \<noteq> 0
       \<and> trace (snd (main d params0 w (Inr vm))) = []
       \<and> (if opt_pattern_file vm = None \<or> opt_target_file vm = None
          then cout (snd (main d params0 w (Inr vm))) = [usage w]
             \<and> cerr (snd (main d params0 w (Inr vm))) = []
          else cout (snd (main d params0 w (Inr vm))) = []
             \<and> cerr (snd (main d params0 w (Inr vm))) =
                 [if unknown_restarts vm
                  then ''Unknown restarts policy '' @ quoted (the (opt_restarts vm))
                  else ''Unknown value-ordering heuristic ''
                       @ quoted (the (opt_value_ordering vm))])"
  using assms(2) EXIT_FAILURE_nonzero
  by (auto simp: main_def configure_checks [OF assms(1)])


text \<open>With \<open>--help\<close>, the unknown policy goes unnoticed: the exit status is 0 and nothing
  is written to \<open>cerr\<close>.\<close>

theorem help_wins_over_unknown_policy:
  "unknown_restarts (files_only\<lparr>opt_help := True, opt_restarts := Some ''bogus''\<rparr>)
   \<and> fst (main example_defaults example_params0 (example_world outcome_none)
            (Inr (files_only\<lparr>opt_help := True, opt_restarts := Some ''bogus''\<rparr>))) = 0
   \<and> cerr (snd (main example_defaults example_params0 (example_world outcome_none)
            (Inr (files_only\<lparr>opt_help := True, opt_restarts := Some ''bogus''\<rparr>)))) = []"
  by (simp add: driver_defs example_defs unknown_restarts_def restart_policy_names_def)

theorem unknown_policy_is_fatal_witness:
  "\<not> opt_help (files_only\<lparr>opt_restarts := Some ''bogus''\<rparr>)
   \<and> unknown_restarts (files_only\<lparr>opt_restarts := Some ''bogus''\<rparr>)
   \<and> fst (main example_defaults example_params0 (example_world outcome_none)
            (Inr (files_only\<lparr>opt_restarts := Some ''bogus''\<rparr>))) = 1
   \<and> trace (snd (main example_defaults example_params0 (example_world outcome_none)
            (Inr (files_only\<lparr>opt_restarts := Some ''bogus''\<rparr>)))) = []
   \<and> cerr (snd (main example_defaults example_params0 (example_world outcome_none)
            (Inr (files_only\<lparr>opt_restarts := Some ''bogus''\<rparr>))))
       = [''Unknown restarts policy '' @ quoted ''bogus'']"
proof -
  let ?vm = "files_only\<lparr>opt_restarts := Some ''bogus''\<rparr>"
  have h1: "\<not> opt_help ?vm" by (simp add: files_only_def)
  have h2: "unknown_restarts ?vm \<or> unknown_value_ordering ?vm"
    by (simp add: unknown_restarts_def restart_policy_names_def)
  have f: "opt_pattern_file ?vm \<noteq> None \<and> opt_target_file ?vm \<noteq> None"
    by (simp add: files_only_def)
  have u: "unknown_restarts ?vm" by (simp add: unknown_restarts_def restart_policy_names_def)
  from unknown_policy_is_fatal [OF h1 h2, of example_defaults example_params0
         "example_world outcome_none"] f u h1
  show ?thesis by (simp add: EXIT_FAILURE_def)
qed

text \<open>
  C4.  An invocation without \<open>--help\<close> in which some pattern less-than constraint
  contains no \<open><\<close> returns \<open>EXIT_FAILURE\<close> (which is not 0) without having read the graphs
  or called the solver.  When both files are named and the restart policy and the heuristic
  are recognised (or not given), it prints nothing to \<open>cout\<close> and one line to \<open>cerr\<close>,
  naming the first constraint without a \<open><\<close>.
\<close>

theorem unparseable_less_than_is_fatal:
  assumes "\<not> opt_help vm"
    and "bad \<in> set (opt_pattern_less_than vm)" and "CHR ''<'' \<notin> set bad"
  shows "fst (main d params0 w (Inr vm)) = EXIT_FAILURE \<and> EXIT_FAILURE \<noteq> 0
       \<and> trace (snd (main d params0 w (Inr vm))) = []
       \<and> (opt_pattern_file vm \<noteq> None \<and> opt_target_file vm \<noteq> None
            \<and> \<not> unknown_restarts vm \<and> \<not> unknown_value_ordering vm \<longrightarrow>
          cout (snd (main d params0 w (Inr vm))) = []
          \<and> cerr (snd (main d params0 w (Inr vm))) =
              [''Invalid pattern less-than constraint '' @
               quoted (the (find (\<lambda>s. CHR ''<'' \<notin> set s) (opt_pattern_less_than vm)))])"
  using find_bad [OF assms(2,3)] EXIT_FAILURE_nonzero
  by (auto simp: main_def configure_checks [OF assms(1)])


text \<open>With \<open>--help\<close>, the constraint is never looked at.\<close>

theorem help_wins_over_unparseable_less_than:
  "''c'' \<in> set (opt_pattern_less_than
                  (files_only\<lparr>opt_help := True, opt_pattern_less_than := [''a<b'', ''c'']\<rparr>))
   \<and> CHR ''<'' \<notin> set ''c''
   \<and> fst (main example_defaults example_params0 (example_world outcome_none)
            (Inr (files_only\<lparr>opt_help := True, opt_pattern_less_than := [''a<b'', ''c'']\<rparr>))) = 0
   \<and> cerr (snd (main example_defaults example_params0 (example_world outcome_none)
            (Inr (files_only\<lparr>opt_help := True, opt_pattern_less_than := [''a<b'', ''c'']\<rparr>))))
       = []"
  by (simp add: driver_defs example_defs)

theorem unparseable_less_than_is_fatal_witness:
  "\<not> opt_help (files_only\<lparr>opt_pattern_less_than := [''a<b'', ''c'']\<rparr>)
   \<and> ''c'' \<in> set (opt_pattern_less_than (files_only\<lparr>opt_pattern_less_than := [''a<b'', ''c'']\<rparr>))
   \<and> CHR ''<'' \<notin> set ''c''
   \<and> fst (main example_defaults example_params0 (example_world outcome_none)
            (Inr (files_only\<lparr>opt_pattern_less_than := [''a<b'', ''c'']\<rparr>))) = 1
   \<and> trace (snd (main example_defaults example_params0 (example_world outcome_none)
            (Inr (files_only\<lparr>opt_pattern_less_than := [''a<b'', ''c'']\<rparr>)))) = []
   \<and> cerr (snd (main example_defaults example_params0 (example_world outcome_none)
            (Inr (files_only\<lparr>opt_pattern_less_than := [''a<b'', ''c'']\<rparr>))))
       = [''Invalid pattern less-than constraint '' @ quoted ''c'']"
proof -
  let ?vm = "files_only\<lparr>opt_pattern_less_than := [''a<b'', ''c'']\<rparr>"
  have h1: "\<not> opt_help ?vm" by (simp add: files_only_def)
  have h2: "''c'' \<in> set (opt_pattern_less_than ?vm)" by simp
  have h3: "CHR ''<'' \<notin> set ''c''" by simp
  have f: "opt_pattern_file ?vm \<noteq> None \<and> opt_target_file ?vm \<noteq> None
           \<and> \<not> unknown_restarts ?vm \<and> \<not> unknown_value_ordering ?vm"
    by (simp add: files_only_def unknown_restarts_def unknown_value_ordering_def)
  from unparseable_less_than_is_fatal [OF h1 h2 h3, of example_defaults example_params0
         "example_world outcome_none"] f h1 h2 h3
  show ?thesis by (simp add: EXIT_FAILURE_def)
qed

text \<open>
  C8.  An invocation without \<open>--help\<close> that gives exactly one of \<open>--send-to-lackey\<close>
  and \<open>--receive-from-lackey\<close> returns \<open>EXIT_FAILURE\<close> (which is not 0) without having
  read the graphs or called the solver; when the checks before it pass (both files named,
  policy and heuristic recognised, every constraint with a \<open><\<close>), it prints nothing to
  \<open>cout\<close> and the one line "Must specify both of --send-to-lackey and
  --receive-from-lackey" to \<open>cerr\<close>.  In every run, a \<open>Lackey\<close> is constructed only from
  the two pipe names given on the command line, so only when both are given.
\<close>

theorem one_lackey_pipe_is_fatal:
  "(\<not> opt_help vm \<and>
      (opt_send_to_lackey vm \<noteq> None \<and> opt_receive_from_lackey vm = None
       \<or> opt_send_to_lackey vm = None \<and> opt_receive_from_lackey vm \<noteq> None) \<longrightarrow>
      fst (main d params0 w (Inr vm)) = EXIT_FAILURE \<and> EXIT_FAILURE \<noteq> 0
      \<and> trace (snd (main d params0 w (Inr vm))) = []
      \<and> (opt_pattern_file vm \<noteq> None \<and> opt_target_file vm \<noteq> None
           \<and> \<not> unknown_restarts vm \<and> \<not> unknown_value_ordering vm
           \<and> (\<forall>s \<in> set (opt_pattern_less_than vm). CHR ''<'' \<in> set s) \<longrightarrow>
         cout (snd (main d params0 w (Inr vm))) = []
         \<and> cerr (snd (main d params0 w (Inr vm))) =
             [''Must specify both of --send-to-lackey and --receive-from-lackey'']))
   \<and> (CallLackey a b \<in> set (trace (snd (main d params0 w (Inr vm)))) \<longrightarrow>
        opt_send_to_lackey vm = Some a \<and> opt_receive_from_lackey vm = Some b)"
proof (intro conjI impI)
  assume "CallLackey a b \<in> set (trace (snd (main d params0 w (Inr vm))))"
  from main_lackey_calls [OF this]
  show "opt_send_to_lackey vm = Some a" and "opt_receive_from_lackey vm = Some b"
    by simp_all
next
  assume h: "\<not> opt_help vm \<and>
      (opt_send_to_lackey vm \<noteq> None \<and> opt_receive_from_lackey vm = None
       \<or> opt_send_to_lackey vm = None \<and> opt_receive_from_lackey vm \<noteq> None)"
  then have nh: "\<not> opt_help vm" and one: "one_lackey_pipe_only vm"
    by (auto simp: one_lackey_pipe_only_def)
  show "EXIT_FAILURE \<noteq> 0" by (rule EXIT_FAILURE_nonzero)
  show "fst (main d params0 w (Inr vm)) = EXIT_FAILURE"
    using one by (auto simp: main_def configure_checks [OF nh] split: option.splits)
  show "trace (snd (main d params0 w (Inr vm))) = []"
    using one by (auto simp: main_def configure_checks [OF nh] split: option.splits)
  assume ok: "opt_pattern_file vm \<noteq> None \<and> opt_target_file vm \<noteq> None
           \<and> \<not> unknown_restarts vm \<and> \<not> unknown_value_ordering vm
           \<and> (\<forall>s \<in> set (opt_pattern_less_than vm). CHR ''<'' \<in> set s)"
  then have f: "find (\<lambda>s. CHR ''<'' \<notin> set s) (opt_pattern_less_than vm) = None"
    by (auto simp: find_None_iff)
  show "cout (snd (main d params0 w (Inr vm))) = []"
    using one ok f by (auto simp: main_def configure_checks [OF nh])
  show "cerr (snd (main d params0 w (Inr vm))) =
          [''Must specify both of --send-to-lackey and --receive-from-lackey'']"
    using one ok f by (auto simp: main_def configure_checks [OF nh])
qed


text \<open>With \<open>--help\<close>, the single pipe name is accepted.\<close>

theorem help_wins_over_one_lackey_pipe:
  "opt_send_to_lackey (files_only\<lparr>opt_help := True, opt_send_to_lackey := Some ''to''\<rparr>)
     = Some ''to''
   \<and> opt_receive_from_lackey (files_only\<lparr>opt_help := True, opt_send_to_lackey := Some ''to''\<rparr>)
     = None
   \<and> fst (main example_defaults example_params0 (example_world outcome_none)
            (Inr (files_only\<lparr>opt_help := True, opt_send_to_lackey := Some ''to''\<rparr>))) = 0
   \<and> cerr (snd (main example_defaults example_params0 (example_world outcome_none)
            (Inr (files_only\<lparr>opt_help := True, opt_send_to_lackey := Some ''to''\<rparr>)))) = []"
  by (simp add: driver_defs example_defs)

theorem one_lackey_pipe_is_fatal_witness:
  "opt_send_to_lackey (files_only\<lparr>opt_send_to_lackey := Some ''to''\<rparr>) = Some ''to''
   \<and> opt_receive_from_lackey (files_only\<lparr>opt_send_to_lackey := Some ''to''\<rparr>) = None
   \<and> fst (main example_defaults example_params0 (example_world outcome_none)
            (Inr (files_only\<lparr>opt_send_to_lackey := Some ''to''\<rparr>))) = 1
   \<and> trace (snd (main example_defaults example_params0 (example_world outcome_none)
            (Inr (files_only\<lparr>opt_send_to_lackey := Some ''to''\<rparr>)))) = []
   \<and> cerr (snd (main example_defaults example_params0 (example_world outcome_none)
            (Inr (files_only\<lparr>opt_send_to_lackey := Some ''to''\<rparr>))))
       = [''Must specify both of --send-to-lackey and --receive-from-lackey'']
   \<and> CallLackey ''to'' ''from'' \<in> set (trace (snd (main example_defaults example_params0
            (example_world outcome_none)
            (Inr (files_only\<lparr>opt_send_to_lackey := Some ''to'',
                             opt_receive_from_lackey := Some ''from''\<rparr>)))))
   \<and> opt_receive_from_lackey (files_only\<lparr>opt_send_to_lackey := Some ''to'',
                             opt_receive_from_lackey := Some ''from''\<rparr>) = Some ''from''"
proof -
  let ?one = "files_only\<lparr>opt_send_to_lackey := Some ''to''\<rparr>"
  let ?both = "files_only\<lparr>opt_send_to_lackey := Some ''to'',
                           opt_receive_from_lackey := Some ''from''\<rparr>"
  have h: "\<not> opt_help ?one \<and>
      (opt_send_to_lackey ?one \<noteq> None \<and> opt_receive_from_lackey ?one = None
       \<or> opt_send_to_lackey ?one = None \<and> opt_receive_from_lackey ?one \<noteq> None)"
    by (simp add: files_only_def)
  have f: "opt_pattern_file ?one \<noteq> None \<and> opt_target_file ?one \<noteq> None
           \<and> \<not> unknown_restarts ?one \<and> \<not> unknown_value_ordering ?one
           \<and> (\<forall>s \<in> set (opt_pattern_less_than ?one). CHR ''<'' \<in> set s)"
    by (simp add: files_only_def unknown_restarts_def unknown_value_ordering_def)
  have l: "CallLackey ''to'' ''from'' \<in> set (trace (snd (main example_defaults
             example_params0 (example_world outcome_none) (Inr ?both))))"
    by (simp add: driver_defs example_defs)
  from one_lackey_pipe_is_fatal [of ?one example_defaults example_params0
         "example_world outcome_none"] h f
  have one: "fst (main example_defaults example_params0 (example_world outcome_none)
                   (Inr ?one)) = 1
       \<and> trace (snd (main example_defaults example_params0 (example_world outcome_none)
                   (Inr ?one))) = []
       \<and> cerr (snd (main example_defaults example_params0 (example_world outcome_none)
                   (Inr ?one)))
           = [''Must specify both of --send-to-lackey and --receive-from-lackey'']"
    by (simp add: EXIT_FAILURE_def)
  from one_lackey_pipe_is_fatal [of ?both example_defaults example_params0
         "example_world outcome_none" "''to''" "''from''"] l
  have both: "opt_receive_from_lackey ?both = Some ''from''"
    by blast
  from h one l both show ?thesis by simp
qed

section \<open>Properties of the restart schedule\<close>

text \<open>
  C6.  The Luby restart schedule with multiplier 1 produces, for the restart indices 0 to 7,
  exactly the budgets 1, 1, 2, 1, 1, 2, 4, 1.
\<close>

theorem Luby_budgets_0_to_7:
  "map (Luby_next_budget 1) [0..<8] = [1, 1, 2, 1, 1, 2, 4, 1]"
  by code_simp

section \<open>Properties of the search engine\<close>

subsection \<open>The checks, with their quantifiers spelled out\<close>

lemma consistent_iff:
  "consistent P T M \<longleftrightarrow>
     distinct (map fst M) \<and>
     (\<forall>u s v t. (u, s) \<in> set M \<longrightarrow> (v, t) \<in> set M \<longrightarrow> ancestor P u v \<longrightarrow> ancestor T s t) \<and>
     (\<forall>l u i v j s t. l \<in> set (links P) \<longrightarrow> (u, i) \<in> set l \<longrightarrow> (v, j) \<in> set l \<longrightarrow>
        (u, s) \<in> set M \<longrightarrow> (v, t) \<in> set M \<longrightarrow> colinked T (s, i) (t, j))"
  apply (simp add: consistent_def Ball_def)
  apply blast
  done

lemma propagate_iff:
  "propagate P T M v t \<longleftrightarrow>
     (\<forall>u s. (u, s) \<in> set ((v, t) # M) \<longrightarrow>
        (ancestor P u v \<longrightarrow> ancestor T s t) \<and> (ancestor P v u \<longrightarrow> ancestor T t s)) \<and>
     (\<forall>l i u j s. l \<in> set (links P) \<longrightarrow> (v, i) \<in> set l \<longrightarrow> (u, j) \<in> set l \<longrightarrow>
        (u, s) \<in> set ((v, t) # M) \<longrightarrow>
        colinked T (t, i) (s, j) \<and> colinked T (s, j) (t, i))"
  by (simp add: propagate_def ancestry_ok_def links_ok_def Ball_def del: set_simps)

lemma induced_ok_iff:
  "induced_ok P T M \<longleftrightarrow>
     (\<forall>u s v t. (u, s) \<in> set M \<longrightarrow> (v, t) \<in> set M \<longrightarrow> adjacent T s t \<longrightarrow> adjacent P u v) \<and>
     (\<forall>l s i t j u v. l \<in> set (links T) \<longrightarrow> (s, i) \<in> set l \<longrightarrow> (t, j) \<in> set l \<longrightarrow>
        (u, s) \<in> set M \<longrightarrow> (v, t) \<in> set M \<longrightarrow> colinked P (u, i) (v, j))"
  apply (simp add: induced_ok_def Ball_def)
  apply blast
  done

lemma consistent_Nil: "consistent P T []"
  by (simp add: consistent_iff)

lemma consistent_tl: "consistent P T (x # M) \<Longrightarrow> consistent P T M"
  by (simp add: consistent_iff)

lemma consistent_fresh: "consistent P T ((v, t) # M) \<Longrightarrow> v \<notin> fst ` set M"
  by (simp add: consistent_iff)

lemma consistent_push:
  assumes c: "consistent P T M" and f: "v \<notin> fst ` set M" and p: "propagate P T M v t"
  shows "consistent P T ((v, t) # M)"
  unfolding consistent_iff
proof (intro conjI allI impI)
  show "distinct (map fst ((v, t) # M))"
    using c f by (simp add: consistent_iff)
next
  fix u s w r
  assume 1: "(u, s) \<in> set ((v, t) # M)" and 2: "(w, r) \<in> set ((v, t) # M)"
    and 3: "ancestor P u w"
  from p have ok: "\<And>u s. (u, s) \<in> set ((v, t) # M) \<Longrightarrow>
      (ancestor P u v \<longrightarrow> ancestor T s t) \<and> (ancestor P v u \<longrightarrow> ancestor T t s)"
    unfolding propagate_iff by blast
  show "ancestor T s r"
  proof (cases "(w, r) = (v, t)")
    case True
    with ok [OF 1] 3 show ?thesis by simp
  next
    case n2: False
    show ?thesis
    proof (cases "(u, s) = (v, t)")
      case True
      with ok [OF 2] 3 show ?thesis by simp
    next
      case False
      with n2 1 2 have "(u, s) \<in> set M" "(w, r) \<in> set M" by auto
      with c 3 show ?thesis unfolding consistent_iff by blast
    qed
  qed
next
  fix l u i w j s r
  assume 0: "l \<in> set (links P)" and 1: "(u, i) \<in> set l" and 2: "(w, j) \<in> set l"
    and 3: "(u, s) \<in> set ((v, t) # M)" and 4: "(w, r) \<in> set ((v, t) # M)"
  from p have ok: "\<And>l i u j s. l \<in> set (links P) \<Longrightarrow> (v, i) \<in> set l \<Longrightarrow>
      (u, j) \<in> set l \<Longrightarrow> (u, s) \<in> set ((v, t) # M) \<Longrightarrow>
      colinked T (t, i) (s, j) \<and> colinked T (s, j) (t, i)"
    unfolding propagate_iff by blast
  show "colinked T (s, i) (r, j)"
  proof (cases "(u, s) = (v, t)")
    case True
    with ok [OF 0 _ 2 4, of i] 1 show ?thesis by simp
  next
    case n1: False
    show ?thesis
    proof (cases "(w, r) = (v, t)")
      case True
      with ok [OF 0 _ 1 3, of j] 2 show ?thesis by simp
    next
      case False
      with n1 3 4 have "(u, s) \<in> set M" "(w, r) \<in> set M" by auto
      with c 0 1 2 show ?thesis unfolding consistent_iff by blast
    qed
  qed
qed

lemma invariant_init: "invariant P T p ask (SELECT_VARIABLE, [], [])"
  by (simp add: invariant_def consistent_Nil)

lemma invariant_step:
  assumes "step P T p ask c c'" and "invariant P T p ask c"
  shows "invariant P T p ask c'"
  using assms
proof (induction rule: step.induct)
  case (propagate_success M v t A)
  then show ?case
    by (simp add: invariant_def consistent_push)
next
  case (backtrack v t M A)
  then show ?case
    using consistent_tl [of P T "(v, t)" M] consistent_fresh [of P T v t M]
    by (simp add: invariant_def)
qed (simp_all add: invariant_def consistent_Nil complete_def)

lemma invariant_reachable:
  "reachable P T p ask c \<Longrightarrow> invariant P T p ask c"
  unfolding reachable_def
  by (induction rule: rtranclp_induct) (auto intro: invariant_init invariant_step)

lemma accepts_good:
  assumes "accepts P T p ask M"
  shows "consistent P T M \<and> complete P M \<and> validate P T p ask M"
proof -
  from assms obtain st M' A where r: "reachable P T p ask (st, M', A)" and m: "M \<in> set A"
    by (auto simp: accepts_def)
  from invariant_reachable [OF r] m show ?thesis
    by (simp add: invariant_def)
qed

lemma distinct_snd_unique:
  "distinct (map snd M) \<Longrightarrow> (x, s) \<in> set M \<Longrightarrow> (y, s) \<in> set M \<Longrightarrow> x = y"
  by (induction M) (auto simp: image_iff)

lemma example_ancestor:
  "ancestor example_pattern 0 (Suc 0)" "\<not> ancestor example_pattern (Suc 0) 0"
  "\<not> ancestor example_pattern 0 0" "\<not> ancestor example_pattern (Suc 0) (Suc 0)"
  "ancestor example_target 0 (Suc 0)"
  by (simp_all add: ancestor_def example_pattern_def example_target_def numeral_2_eq_2
       numeral_3_eq_3)

lemma example_run:
  "reachable example_pattern example_target example_params None
     (DONE, [(1, 1), (0, 0)], [[(1, 1), (0, 0)]])"
proof -
  let ?step = "step example_pattern example_target example_params None"
  have 1: "?step (SELECT_VARIABLE, [], []) (SELECT_VALUE 0, [], [])"
    by (rule select_variable) (simp_all add: example_pattern_def)
  have 2: "?step (SELECT_VALUE 0, [], []) (PROPAGATE 0 0, [], [])"
    by (rule select_value) (simp add: example_target_def)
  have 3: "?step (PROPAGATE 0 0, [], []) (SELECT_VARIABLE, [(0, 0)], [])"
    by (rule propagate_success)
       (simp add: propagate_def ancestry_ok_def links_ok_def ancestor_def colinked_def
          example_pattern_def example_target_def numeral_2_eq_2 numeral_3_eq_3)
  have 4: "?step (SELECT_VARIABLE, [(0, 0)], []) (SELECT_VALUE 1, [(0, 0)], [])"
    by (rule select_variable) (simp_all add: example_pattern_def)
  have 5: "?step (SELECT_VALUE 1, [(0, 0)], []) (PROPAGATE 1 1, [(0, 0)], [])"
    by (rule select_value) (simp add: example_target_def)
  have 6: "?step (PROPAGATE 1 1, [(0, 0)], []) (SELECT_VARIABLE, [(1, 1), (0, 0)], [])"
    by (rule propagate_success)
       (simp add: propagate_def ancestry_ok_def links_ok_def ancestor_def colinked_def
          example_pattern_def example_target_def numeral_2_eq_2 numeral_3_eq_3)
  have 7: "?step (SELECT_VARIABLE, [(1, 1), (0, 0)], []) (SOLUTION, [(1, 1), (0, 0)], [])"
    by (rule all_assigned) (auto simp: example_pattern_def less_Suc_eq numeral_2_eq_2)
  have 8: "?step (SOLUTION, [(1, 1), (0, 0)], []) (DONE, [(1, 1), (0, 0)], [[(1, 1), (0, 0)]])"
    by (rule solution_found)
       (simp_all add: validate_def structurally_valid_def injective_def induced_ok_def
          consult_def adjacent_def colinked_def example_params_def example_params0_def
          basic_params_def Let_def files_only_def
          example_pattern_def example_target_def)
  from 1 2 3 4 5 6 7 8 show ?thesis
    unfolding reachable_def by (meson rtranclp.rtrancl_into_rtrancl rtranclp.rtrancl_refl)
qed

subsection \<open>Accepted mappings\<close>

text \<open>
  C1.  Every mapping the solver accepts as a solution assigns every pattern vertex, is
  injective, preserves place-forest ancestry (whenever \<open>u\<close> is an ancestor of \<open>v\<close> in the
  pattern, the image of \<open>u\<close> is an ancestor of the image of \<open>v\<close> in the target), maps the
  ports of every pattern link to co-linked target ports, and, when \<open>induced\<close> is set, maps
  pattern vertices that are not adjacent to target vertices that are not adjacent and
  pattern ports that are not co-linked to target ports that are not co-linked.
\<close>

theorem accepted_mappings_are_embeddings:
  assumes "accepts P T p ask M"
  shows "(\<forall>v < vertex_count P. map_of M v \<noteq> None)
       \<and> inj_on (map_of M) {v. v < vertex_count P}
       \<and> (\<forall>u v s t. map_of M u = Some s \<and> map_of M v = Some t \<and> ancestor P u v
             \<longrightarrow> ancestor T s t)
       \<and> (\<forall>l \<in> set (links P). \<forall>(u, i) \<in> set l. \<forall>(v, j) \<in> set l.
             \<forall>s t. map_of M u = Some s \<and> map_of M v = Some t
               \<longrightarrow> colinked T (s, i) (t, j))
       \<and> (induced p \<longrightarrow>
            (\<forall>u v s t. map_of M u = Some s \<and> map_of M v = Some t \<and> \<not> adjacent P u v
               \<longrightarrow> \<not> adjacent T s t)
          \<and> (\<forall>u v s t i j. map_of M u = Some s \<and> map_of M v = Some t
                \<and> \<not> colinked P (u, i) (v, j)
               \<longrightarrow> \<not> colinked T (s, i) (t, j)))"
proof -
  from accepts_good [OF assms] have
    c: "consistent P T M" and k: "complete P M" and v: "validate P T p ask M"
    by simp_all
  have mem: "(u, s) \<in> set M" if "map_of M u = Some s" for u s
    using that by (rule map_of_SomeD)
  have total: "\<forall>v < vertex_count P. map_of M v \<noteq> None"
    using k by (auto simp: complete_def map_of_eq_None_iff)
  from v have i: "distinct (map snd M)"
    by (simp add: validate_def structurally_valid_def injective_def)
  have inj: "inj_on (map_of M) {v. v < vertex_count P}"
  proof (rule inj_onI)
    fix x y
    assume x: "x \<in> {v. v < vertex_count P}" and y: "y \<in> {v. v < vertex_count P}"
      and e: "map_of M x = map_of M y"
    from total x obtain s where xs: "map_of M x = Some s" by auto
    with e have ys: "map_of M y = Some s" by simp
    from distinct_snd_unique [OF i mem [OF xs] mem [OF ys]] show "x = y" .
  qed
  have anc: "\<forall>u v s t. map_of M u = Some s \<and> map_of M v = Some t \<and> ancestor P u v
             \<longrightarrow> ancestor T s t"
  proof (intro allI impI, elim conjE)
    fix u v s t
    assume "map_of M u = Some s" "map_of M v = Some t" "ancestor P u v"
    with c mem [of u s] mem [of v t] show "ancestor T s t"
      unfolding consistent_iff by blast
  qed
  have lnk: "\<forall>l \<in> set (links P). \<forall>(u, i) \<in> set l. \<forall>(v, j) \<in> set l.
             \<forall>s t. map_of M u = Some s \<and> map_of M v = Some t
               \<longrightarrow> colinked T (s, i) (t, j)"
  proof (clarify)
    fix l u i v j s t
    assume "l \<in> set (links P)" "(u, i) \<in> set l" "(v, j) \<in> set l"
      "map_of M u = Some s" "map_of M v = Some t"
    with c mem [of u s] mem [of v t] show "colinked T (s, i) (t, j)"
      unfolding consistent_iff by blast
  qed
  have ind1: "\<forall>u v s t. map_of M u = Some s \<and> map_of M v = Some t \<and> \<not> adjacent P u v
               \<longrightarrow> \<not> adjacent T s t" if o: "induced_ok P T M"
  proof (intro allI impI, elim conjE)
    fix u v s t
    assume "map_of M u = Some s" "map_of M v = Some t" "\<not> adjacent P u v"
    with o mem [of u s] mem [of v t] show "\<not> adjacent T s t"
      unfolding induced_ok_iff by blast
  qed
  have ind2: "\<forall>u v s t i j. map_of M u = Some s \<and> map_of M v = Some t
                \<and> \<not> colinked P (u, i) (v, j)
               \<longrightarrow> \<not> colinked T (s, i) (t, j)" if o: "induced_ok P T M"
  proof (intro allI impI notI, elim conjE)
    fix u v s t i j
    assume 1: "map_of M u = Some s" and 2: "map_of M v = Some t"
      and 3: "\<not> colinked P (u, i) (v, j)" and 4: "colinked T (s, i) (t, j)"
    from 4 obtain l where l: "l \<in> set (links T)" "(s, i) \<in> set l" "(t, j) \<in> set l"
      by (auto simp: colinked_def)
    with o mem [OF 1] mem [OF 2] have "colinked P (u, i) (v, j)"
      unfolding induced_ok_iff by blast
    with 3 show False by simp
  qed
  from v have "induced p \<longrightarrow> induced_ok P T M"
    by (simp add: validate_def structurally_valid_def)
  with total inj anc lnk ind1 ind2 show ?thesis by blast
qed

theorem accepted_mappings_are_embeddings_witness:
  "accepts example_pattern example_target example_params None [(1, 1), (0, 0)]
   \<and> induced example_params
   \<and> ancestor example_pattern 0 1 \<and> ancestor example_target 0 1
   \<and> colinked example_target (0, 0) (1, 0)
   \<and> \<not> adjacent example_target 0 2"
proof -
  have a: "accepts example_pattern example_target example_params None [(1, 1), (0, 0)]"
    unfolding accepts_def using example_run by fastforce
  have i: "induced example_params"
    by (simp add: example_params_def basic_params_def Let_def files_only_def)
  have l: "[(0, 0), (1, 0)] \<in> set (links example_pattern)"
    by (simp add: example_pattern_def)
  from accepted_mappings_are_embeddings [OF a] have
    anc: "\<And>u v s t. map_of [(1, 1), (0, 0)] u = Some s \<Longrightarrow> map_of [(1, 1), (0, 0)] v = Some t
            \<Longrightarrow> ancestor example_pattern u v \<Longrightarrow> ancestor example_target s t"
    and lnk: "\<forall>l \<in> set (links example_pattern). \<forall>(u, i) \<in> set l. \<forall>(v, j) \<in> set l.
             \<forall>s t. map_of [(1, 1), (0, 0)] u = Some s \<and> map_of [(1, 1), (0, 0)] v = Some t
               \<longrightarrow> colinked example_target (s, i) (t, j)"
    by blast+
  have p: "ancestor example_pattern 0 1"
    using example_ancestor by simp
  from anc [of "0::nat" "0::nat" "1::nat" "1::nat"] p
  have t: "ancestor example_target 0 1" by simp
  from lnk l have c: "colinked example_target (0, 0) (1, 0)"
    by fastforce
  have n: "\<not> adjacent example_target 0 2"
    by (simp add: adjacent_def example_target_def)
  from a i p t c n show ?thesis by simp
qed

end
